theory Spec2Isabelle
  imports Main "HOL-Library.List_Lexorder"
begin

section \<open>Python values used by messageparser.py\<close>

text \<open>
  A Python \<open>str\<close> is a sequence of Unicode code points, so it is a list of naturals;
  \<open>len\<close> is \<open>length\<close>.  ASCII literals of the source are written with \<open>ascii\<close>.
  \<open>bytes\<close> are lists of naturals below 256.
\<close>

type_synonym ustr = "nat list"
type_synonym bytes = "nat list"

definition ascii :: "string \<Rightarrow> ustr" where
  "ascii s = map of_char s"

text \<open>The exceptions the modelled code can raise.\<close>

datatype error =
    KeyError | IndexError | TypeError | AttributeError | ValueError | OverflowError
  | OSError | UnboundLocalError | UnicodeEncodeError | UnicodeDecodeError

text \<open>\<open>xs[i]\<close> with Python's negative indices; out of range raises IndexError.\<close>

definition py_index :: "'a list \<Rightarrow> int \<Rightarrow> error + 'a" where
  "py_index xs i =
     (if 0 \<le> i \<and> i < int (length xs) then Inr (xs ! nat i)
      else if i < 0 \<and> - i \<le> int (length xs) then Inr (xs ! nat (int (length xs) + i))
      else Inl IndexError)"

text \<open>
  \<open>str.isspace\<close> for one code point: the characters CPython's \<open>str.split()\<close> treats as
  whitespace.
\<close>

definition is_space :: "nat \<Rightarrow> bool" where
  "is_space c \<longleftrightarrow>
     (9 \<le> c \<and> c \<le> 13) \<or> (28 \<le> c \<and> c \<le> 32) \<or> c = 133 \<or> c = 160 \<or> c = 5760 \<or>
     (8192 \<le> c \<and> c \<le> 8202) \<or> c = 8232 \<or> c = 8233 \<or> c = 8239 \<or> c = 8287 \<or> c = 12288"

text \<open>
  \<open>s.split()\<close>: runs of whitespace separate the tokens, leading and trailing whitespace is
  dropped, no token is empty.
\<close>

function split_ws :: "ustr \<Rightarrow> ustr list" where
  "split_ws [] = []"
| "split_ws (c # cs) =
     (if is_space c then split_ws cs
      else takeWhile (\<lambda>x. \<not> is_space x) (c # cs) # split_ws (dropWhile (\<lambda>x. \<not> is_space x) cs))"
  by pat_completeness auto
termination
  by (relation "measure length") (auto simp: length_dropWhile_le less_Suc_eq_le)

text \<open>
  \<open>s.split(sep)\<close> for a separator of one character: every occurrence splits, empty tokens
  are kept, the result is never empty.
\<close>

fun split_sep :: "nat \<Rightarrow> ustr \<Rightarrow> ustr list" where
  "split_sep sep [] = [[]]"
| "split_sep sep (c # cs) =
     (if c = sep then [] # split_sep sep cs
      else (case split_sep sep cs of
              [] \<Rightarrow> [[c]]
            | t # ts \<Rightarrow> (c # t) # ts))"

text \<open>\<open>sep.join(parts)\<close>.\<close>

fun join :: "ustr \<Rightarrow> ustr list \<Rightarrow> ustr" where
  "join sep [] = []"
| "join sep [t] = t"
| "join sep (t # ts) = t @ sep @ join sep ts"

section \<open>convert_symbols_to_emojis\<close>

text \<open>The dict literal \<open>convertable_emojis\<close>, in the order of the source.\<close>

definition convertable_emojis :: "(ustr \<times> ustr) list" where
  "convertable_emojis =
     [(ascii '':)'', [128578]), (ascii '':D'', [128512]), (ascii ''^_^'', [128522]),
      (ascii ''O:)'', [128519]), (ascii '':*'', [128535]), (ascii '':P'', [128539]),
      (ascii ''8)'', [128526]), (ascii ''(y)'', [128077]), (ascii '':('', [128542]),
      (ascii '':/'', [128533]), ([58, 39, 40], [128546]), (ascii ''o.O'', [128563]),
      (ascii ''O.o'', [128563]), (ascii ''-_-'', [128529]), (ascii '':|'', [128528]),
      (ascii ''<3'', [10084, 65039])]"

text \<open>\<open>convertable_emojis.get(i, i)\<close>.\<close>

definition emoji_get :: "ustr \<Rightarrow> ustr" where
  "emoji_get i = (case map_of convertable_emojis i of Some e \<Rightarrow> e | None \<Rightarrow> i)"

definition convert_symbols_to_emojis :: "ustr \<Rightarrow> ustr" where
  "convert_symbols_to_emojis message = join [32] (map emoji_get (split_ws message))"

text \<open>A token of \<open>split()\<close>: not empty and free of whitespace.\<close>

definition is_token :: "ustr \<Rightarrow> bool" where
  "is_token t \<longleftrightarrow> t \<noteq> [] \<and> list_all (\<lambda>c. \<not> is_space c) t"

section \<open>Errors as values\<close>

definition ebind :: "error + 'a \<Rightarrow> ('a \<Rightarrow> error + 'b) \<Rightarrow> error + 'b" where
  "ebind m f = (case m of Inl e \<Rightarrow> Inl e | Inr x \<Rightarrow> f x)"

section \<open>Codecs\<close>

text \<open>\<open>s.encode("latin1")\<close>: every code point must be below 256.\<close>

definition encode_latin1 :: "ustr \<Rightarrow> error + bytes" where
  "encode_latin1 s = (if list_all (\<lambda>c. c < 256) s then Inr s else Inl UnicodeEncodeError)"

definition is_cont :: "nat \<Rightarrow> bool" where
  "is_cont b \<longleftrightarrow> 128 \<le> b \<and> b < 192"

text \<open>
  \<open>b.decode("utf8")\<close>, strict: shortest forms only, no surrogates, nothing above
  U+10FFFF.
\<close>

fun decode_utf8 :: "bytes \<Rightarrow> error + ustr" where
  "decode_utf8 [] = Inr []"
| "decode_utf8 (b0 # bs) =
     (if b0 < 128 then
        (case decode_utf8 bs of Inl e \<Rightarrow> Inl e | Inr r \<Rightarrow> Inr (b0 # r))
      else if 194 \<le> b0 \<and> b0 < 224 then
        (case bs of
           b1 # rest \<Rightarrow>
             if is_cont b1 then
               (case decode_utf8 rest of Inl e \<Rightarrow> Inl e
                | Inr r \<Rightarrow> Inr (((b0 - 192) * 64 + (b1 - 128)) # r))
             else Inl UnicodeDecodeError
         | _ \<Rightarrow> Inl UnicodeDecodeError)
      else if 224 \<le> b0 \<and> b0 < 240 then
        (case bs of
           b1 # b2 # rest \<Rightarrow>
             if (if b0 = 224 then 160 else 128) \<le> b1 \<and> b1 < (if b0 = 237 then 160 else 192)
                \<and> is_cont b2 then
               (case decode_utf8 rest of Inl e \<Rightarrow> Inl e
                | Inr r \<Rightarrow> Inr (((b0 - 224) * 4096 + (b1 - 128) * 64 + (b2 - 128)) # r))
             else Inl UnicodeDecodeError
         | _ \<Rightarrow> Inl UnicodeDecodeError)
      else if 240 \<le> b0 \<and> b0 < 245 then
        (case bs of
           b1 # b2 # b3 # rest \<Rightarrow>
             if (if b0 = 240 then 144 else 128) \<le> b1 \<and> b1 < (if b0 = 244 then 144 else 192)
                \<and> is_cont b2 \<and> is_cont b3 then
               (case decode_utf8 rest of Inl e \<Rightarrow> Inl e
                | Inr r \<Rightarrow>
                    Inr (((b0 - 240) * 262144 + (b1 - 128) * 4096 + (b2 - 128) * 64 + (b3 - 128)) # r))
             else Inl UnicodeDecodeError
         | _ \<Rightarrow> Inl UnicodeDecodeError)
      else Inl UnicodeDecodeError)"

text \<open>
  \<open>s.encode("utf-16", "surrogatepass")\<close>: a byte order mark, then the code units in
  little-endian order (the native order of the usual hosts); a code point of the surrogate
  range is passed through as one code unit.
\<close>

definition utf16_units :: "nat \<Rightarrow> nat list" where
  "utf16_units c =
     (if c < 65536 then [c]
      else [55296 + (c - 65536) div 1024, 56320 + (c - 65536) mod 1024])"

definition unit_bytes :: "nat \<Rightarrow> bytes" where
  "unit_bytes w = [w mod 256, w div 256]"

definition encode_utf16_surrogatepass :: "ustr \<Rightarrow> bytes" where
  "encode_utf16_surrogatepass s = [255, 254] @ concat (map unit_bytes (concat (map utf16_units s)))"

text \<open>
  \<open>b.decode("utf-16")\<close>, strict: the byte order mark selects the byte order and is
  removed, a high surrogate followed by a low one is one code point, any other surrogate
  and an odd number of bytes are errors.
\<close>

fun bytes_units :: "bool \<Rightarrow> bytes \<Rightarrow> error + nat list" where
  "bytes_units le [] = Inr []"
| "bytes_units le [b] = Inl UnicodeDecodeError"
| "bytes_units le (b0 # b1 # bs) =
     (case bytes_units le bs of
        Inl e \<Rightarrow> Inl e
      | Inr ws \<Rightarrow> Inr ((if le then b0 + 256 * b1 else b1 + 256 * b0) # ws))"

fun units_points :: "nat list \<Rightarrow> error + ustr" where
  "units_points [] = Inr []"
| "units_points (w # ws) =
     (if 55296 \<le> w \<and> w < 56320 then
        (case ws of
           w2 # rest \<Rightarrow>
             if 56320 \<le> w2 \<and> w2 < 57344 then
               (case units_points rest of Inl e \<Rightarrow> Inl e
                | Inr r \<Rightarrow> Inr ((65536 + (w - 55296) * 1024 + (w2 - 56320)) # r))
             else Inl UnicodeDecodeError
         | [] \<Rightarrow> Inl UnicodeDecodeError)
      else if 56320 \<le> w \<and> w < 57344 then Inl UnicodeDecodeError
      else (case units_points ws of Inl e \<Rightarrow> Inl e | Inr r \<Rightarrow> Inr (w # r)))"

definition decode_utf16 :: "bytes \<Rightarrow> error + ustr" where
  "decode_utf16 b =
     (if take 2 b = [255, 254] then ebind (bytes_units True (drop 2 b)) units_points
      else if take 2 b = [254, 255] then ebind (bytes_units False (drop 2 b)) units_points
      else ebind (bytes_units True b) units_points)"

text \<open>The two repairs of the source, as the expressions are written there.\<close>

definition repair_latin1_utf8 :: "ustr \<Rightarrow> error + ustr" where
  "repair_latin1_utf8 s = ebind (encode_latin1 s) decode_utf8"

definition repair_utf16 :: "ustr \<Rightarrow> error + ustr" where
  "repair_utf16 s = decode_utf16 (encode_utf16_surrogatepass s)"

section \<open>datetime\<close>

text \<open>
  The part of Python's \<open>datetime\<close> the source uses, as CPython 3.11 on Linux behaves.
  A value holds the calendar fields and, when it is aware, its UTC offset in
  microseconds.  The host's local time zone is a parameter \<open>tz\<close> of the functions that
  depend on it: its UTC offset in seconds, taken as constant.
\<close>

record datetime =
  year :: nat
  month :: nat
  day :: nat
  hour :: nat
  minute :: nat
  second :: nat
  microsecond :: nat
  tzinfo :: "int option"

definition is_leap :: "nat \<Rightarrow> bool" where
  "is_leap y = (if y mod 400 = 0 then True else if y mod 100 = 0 then False else y mod 4 = 0)"

definition days_in_month :: "nat \<Rightarrow> nat \<Rightarrow> nat" where
  "days_in_month y m =
     (if m = 2 then (if is_leap y then 29 else 28)
      else if m = 4 \<or> m = 6 \<or> m = 9 \<or> m = 11 then 30 else 31)"

text \<open>The field checks of the constructor; what Python rejects with ValueError.\<close>

definition valid_datetime :: "datetime \<Rightarrow> bool" where
  "valid_datetime dt \<longleftrightarrow>
     1 \<le> year dt \<and> year dt \<le> 9999 \<and> 1 \<le> month dt \<and> month dt \<le> 12 \<and>
     1 \<le> day dt \<and> day dt \<le> days_in_month (year dt) (month dt) \<and>
     hour dt < 24 \<and> minute dt < 60 \<and> second dt < 60 \<and> microsecond dt < 1000000"

definition datetime_new ::
  "nat \<Rightarrow> nat \<Rightarrow> nat \<Rightarrow> nat \<Rightarrow> nat \<Rightarrow> nat \<Rightarrow> nat \<Rightarrow> int option \<Rightarrow> error + datetime" where
  "datetime_new y m d hh mm ss us tz =
     (let dt = \<lparr>year = y, month = m, day = d, hour = hh, minute = mm, second = ss,
                microsecond = us, tzinfo = tz\<rparr>
      in if valid_datetime dt then Inr dt else Inl ValueError)"

text \<open>The proleptic Gregorian ordinal of a date (1 is 0001-01-01), as \<open>_ymd2ord\<close>.\<close>

definition days_before_year :: "nat \<Rightarrow> nat" where
  "days_before_year y = (y - 1) * 365 + (y - 1) div 4 - (y - 1) div 100 + (y - 1) div 400"

definition days_before_month :: "nat \<Rightarrow> nat \<Rightarrow> nat" where
  "days_before_month y m = sum_list (map (days_in_month y) [1..<m])"

definition ymd2ord :: "nat \<Rightarrow> nat \<Rightarrow> nat \<Rightarrow> nat" where
  "ymd2ord y m d = days_before_year y + days_before_month y m + d"

definition toordinal :: "datetime \<Rightarrow> nat" where
  "toordinal dt = ymd2ord (year dt) (month dt) (day dt)"

text \<open>\<open>weekday()\<close>: Monday is 0.\<close>

definition weekday :: "datetime \<Rightarrow> nat" where
  "weekday dt = (toordinal dt + 6) mod 7"

text \<open>The inverse, as \<open>_ord2ymd\<close> computes it, for an ordinal of at least 1.\<close>

definition ord2ymd :: "nat \<Rightarrow> nat \<times> nat \<times> nat" where
  "ord2ymd n0 =
     (let n = n0 - 1;
          n400 = n div 146097; n = n mod 146097;
          n100 = n div 36524; n = n mod 36524;
          n4 = n div 1461; n = n mod 1461;
          n1 = n div 365; n = n mod 365;
          y = n400 * 400 + 1 + n100 * 100 + n4 * 4 + n1
      in if n1 = 4 \<or> n100 = 4 then (y - 1, 12, 31)
         else
           (let m = (n + 50) div 32;
                preceding = days_before_month y m
            in if preceding > n then (y, m - 1, n - (preceding - days_in_month y (m - 1)) + 1)
               else (y, m, n - preceding + 1)))"

text \<open>
  The wall clock \<open>us\<close> microseconds after 0001-01-01T00:00:00, built through the
  constructor; outside the years 1 to 9999 the given error is raised.
\<close>

definition datetime_of_micros :: "error \<Rightarrow> int \<Rightarrow> int option \<Rightarrow> error + datetime" where
  "datetime_of_micros err us tz =
     (let days = us div 86400000000; rem = nat (us mod 86400000000)
      in if 0 \<le> days \<and> days < 3652059 then
           (case ord2ymd (nat days + 1) of
              (y, m, d) \<Rightarrow>
                datetime_new y m d (rem div 3600000000) (rem mod 3600000000 div 60000000)
                  (rem mod 60000000 div 1000000) (rem mod 1000000) tz)
         else Inl err)"

definition seconds_of_datetime :: "datetime \<Rightarrow> int" where
  "seconds_of_datetime dt =
     (int (toordinal dt) - 1) * 86400 + int (hour dt) * 3600 + int (minute dt) * 60
       + int (second dt)"

definition micros_of_datetime :: "datetime \<Rightarrow> int" where
  "micros_of_datetime dt = seconds_of_datetime dt * 1000000 + int (microsecond dt)"

text \<open>
  \<open>datetime.fromtimestamp(t)\<close> for whole seconds \<open>t\<close> since the epoch
  (1970-01-01 is ordinal 719163): the naive local time.  A \<open>t\<close> that does not fit the
  64 bits of \<open>time_t\<close> is an OverflowError; a local year that does not fit the 32 bits of
  \<open>tm_year\<close> makes \<open>localtime\<close> fail with OSError; a local time outside the years 1
  to 9999, or within the first day of year 1, where the look one day back for a repeated
  hour leaves the calendar, is a ValueError.
\<close>

definition fromtimestamp :: "int \<Rightarrow> int \<Rightarrow> error + datetime" where
  "fromtimestamp tz t =
     (let local = t + tz + 62135596800
      in if t < - 9223372036854775808 \<or> 9223372036854775808 \<le> t then Inl OverflowError
         else if 67768098327273600 \<le> local \<or> local < - 67767978474144000 then Inl OSError
         else if local < 86400 \<or> 315537897600 \<le> local then Inl ValueError
         else datetime_of_micros ValueError (local * 1000000) None)"

text \<open>
  \<open>dt.astimezone(get_localzone())\<close>.  A naive value is taken to be local time: finding
  its offset reads the local clock at the same seconds taken as UTC and one day before the
  value, each a ValueError outside the years 1 to 9999; the value is then moved to UTC and
  back, and keeps its fields.  An aware value is moved to UTC by subtracting its offset
  and then to the local zone.  Each move is a \<open>timedelta\<close> addition that raises
  OverflowError outside the supported years.
\<close>

definition astimezone :: "int \<Rightarrow> datetime \<Rightarrow> error + datetime" where
  "astimezone tz dt =
     (case tzinfo dt of
        None \<Rightarrow>
          (let t = seconds_of_datetime dt
           in if t + tz < 0 \<or> 315537897600 \<le> t + tz \<or> t < 86400 then Inl ValueError
              else
                ebind (datetime_of_micros OverflowError (micros_of_datetime dt - tz * 1000000)
                         (Some 0))
                  (\<lambda>utc. Inr (dt\<lparr>tzinfo := Some (tz * 1000000)\<rparr>)))
      | Some off \<Rightarrow>
          ebind (datetime_of_micros OverflowError (micros_of_datetime dt - off) (Some 0))
            (\<lambda>utc. datetime_of_micros OverflowError (micros_of_datetime dt - off + tz * 1000000)
                     (Some (tz * 1000000))))"

subsection \<open>ctime\<close>

definition DayNames :: "ustr list" where
  "DayNames = map ascii [''Mon'', ''Tue'', ''Wed'', ''Thu'', ''Fri'', ''Sat'', ''Sun'']"

definition MonthNames :: "ustr list" where
  "MonthNames = map ascii [''Jan'', ''Feb'', ''Mar'', ''Apr'', ''May'', ''Jun'',
                           ''Jul'', ''Aug'', ''Sep'', ''Oct'', ''Nov'', ''Dec'']"

text \<open>\<open>str(n)\<close> for a natural number, and padding on the left to a width.\<close>

fun str_nat :: "nat \<Rightarrow> ustr" where
  "str_nat n = (if n < 10 then [48 + n] else str_nat (n div 10) @ [48 + n mod 10])"

definition rjust :: "nat \<Rightarrow> nat \<Rightarrow> ustr \<Rightarrow> ustr" where
  "rjust w fill s = replicate (w - length s) fill @ s"

text \<open>The time of day as \<open>%02d:%02d:%02d\<close>.\<close>

definition hms :: "datetime \<Rightarrow> ustr" where
  "hms dt = rjust 2 48 (str_nat (hour dt)) @ [58] @ rjust 2 48 (str_nat (minute dt)) @ [58]
              @ rjust 2 48 (str_nat (second dt))"

text \<open>\<open>dt.ctime()\<close>: the format \<open>%s %s %2d %02d:%02d:%02d %04d\<close>.\<close>

definition ctime :: "datetime \<Rightarrow> ustr" where
  "ctime dt =
     DayNames ! weekday dt @ [32] @ MonthNames ! (month dt - 1) @ [32]
       @ rjust 2 32 (str_nat (day dt)) @ [32] @ hms dt @ [32] @ rjust 4 48 (str_nat (year dt))"

subsection \<open>fromisoformat\<close>

text \<open>
  \<open>datetime.fromisoformat\<close> as the C implementation of CPython 3.11 reads a string: on
  its UTF-8 bytes, with a zero byte wherever it reads past the end.  A surrogate in the
  place of the separator is replaced by \<open>T\<close> first; any other surrogate cannot be
  encoded and is a ValueError.
\<close>

definition is_digit :: "nat \<Rightarrow> bool" where
  "is_digit c \<longleftrightarrow> 48 \<le> c \<and> c \<le> 57"

definition byte_at :: "bytes \<Rightarrow> nat \<Rightarrow> nat" where
  "byte_at s i = (if i < length s then s ! i else 0)"

definition is_surrogate :: "nat \<Rightarrow> bool" where
  "is_surrogate c \<longleftrightarrow> 55296 \<le> c \<and> c < 57344"

definition utf8_bytes :: "nat \<Rightarrow> bytes option" where
  "utf8_bytes c =
     (if c < 128 then Some [c]
      else if c < 2048 then Some [192 + c div 64, 128 + c mod 64]
      else if c < 65536 then
        (if is_surrogate c then None
         else Some [224 + c div 4096, 128 + c div 64 mod 64, 128 + c mod 64])
      else if c < 1114112 then
        Some [240 + c div 262144, 128 + c div 4096 mod 64, 128 + c div 64 mod 64, 128 + c mod 64]
      else None)"

fun encode_utf8 :: "ustr \<Rightarrow> bytes option" where
  "encode_utf8 [] = Some []"
| "encode_utf8 (c # cs) =
     (case utf8_bytes c of
        None \<Rightarrow> None
      | Some b \<Rightarrow> (case encode_utf8 cs of None \<Rightarrow> None | Some r \<Rightarrow> Some (b @ r)))"

text \<open>\<open>_sanitize_isoformat_str\<close>: the first of the places 7, 8 and 10 that holds a surrogate.\<close>

definition sanitize_isoformat :: "ustr \<Rightarrow> ustr" where
  "sanitize_isoformat s =
     (if 7 \<le> length s \<and> is_surrogate (byte_at s 7) then s[7 := 84]
      else if 8 \<le> length s \<and> is_surrogate (byte_at s 8) then s[8 := 84]
      else if 10 \<le> length s \<and> is_surrogate (byte_at s 10) then s[10 := 84]
      else s)"

text \<open>\<open>parse_digits\<close>: the value of the \<open>k\<close> digits from place \<open>i\<close>.\<close>

definition digits_at :: "bytes \<Rightarrow> nat \<Rightarrow> nat \<Rightarrow> nat option" where
  "digits_at s i k =
     (let ds = take k (drop i s)
      in if length ds = k \<and> list_all is_digit ds
         then Some (foldl (\<lambda>v c. v * 10 + (c - 48)) 0 ds) else None)"

text \<open>
  \<open>_find_isoformat_datetime_separator\<close>, for a string of at least 7 bytes: where the
  date ends.  \<open>None\<close> is a ValueError.
\<close>

definition find_isoformat_datetime_separator :: "bytes \<Rightarrow> nat option" where
  "find_isoformat_datetime_separator s =
     (let n = length s
      in if n = 7 then Some 7
         else if byte_at s 4 = 45 then
           (if byte_at s 5 = 87 then
              (if n < 8 then None
               else if 8 < n \<and> byte_at s 8 = 45 then
                 (if n = 9 then None
                  else if 10 < n \<and> is_digit (byte_at s 10) then Some 8
                  else Some 10)
               else Some 8)
            else Some 10)
         else if byte_at s 4 = 87 then
           (let idx = 7 + length (takeWhile is_digit (drop 7 s))
            in if idx < 9 then Some idx else if even idx then Some 7 else Some 8)
         else Some 8)"

text \<open>\<open>iso_to_ymd\<close>: the ordinal of a day given by ISO year, week and weekday.\<close>

definition iso_to_ordinal :: "nat \<Rightarrow> nat \<Rightarrow> nat \<Rightarrow> nat option" where
  "iso_to_ordinal y w d =
     (let first_day = ymd2ord y 1 1;
          first_weekday = (first_day + 6) mod 7;
          week1monday = (if first_weekday > 3 then first_day + 7 - first_weekday
                         else first_day - first_weekday)
      in if y < 1 \<or> 9999 < y then None
         else if (w = 0 \<or> 53 \<le> w)
                 \<and> \<not> (w = 53 \<and> (first_day mod 7 = 4 \<or> (first_day mod 7 = 3 \<and> is_leap y)))
           then None
         else if d = 0 \<or> 8 \<le> d then None
         else Some (week1monday + (w - 1) * 7 + (d - 1)))"

text \<open>
  \<open>parse_isoformat_date\<close> on the first \<open>len\<close> bytes: year, month and day of a
  calendar date or of a week date.
\<close>

definition parse_isoformat_date :: "bytes \<Rightarrow> nat \<Rightarrow> (nat \<times> nat \<times> nat) option" where
  "parse_isoformat_date s len =
     (case digits_at s 0 4 of
        None \<Rightarrow> None
      | Some y \<Rightarrow>
          (let uses_separator = (byte_at s 4 = 45);
               p = (if uses_separator then 5 else 4)
           in if byte_at s p = 87 then
                (case digits_at s (p + 1) 2 of
                   None \<Rightarrow> None
                 | Some w \<Rightarrow>
                     (let q = p + 3;
                          iso_day =
                            (if q < len then
                               (if uses_separator \<and> byte_at s q \<noteq> 45 then None
                                else digits_at s (if uses_separator then q + 1 else q) 1)
                             else Some 1)
                      in case iso_day of
                           None \<Rightarrow> None
                         | Some d \<Rightarrow>
                             (case iso_to_ordinal y w d of
                                None \<Rightarrow> None
                              | Some ordinal \<Rightarrow>
                                  if 1 \<le> ordinal \<and> ordinal \<le> 3652059
                                  then Some (ord2ymd ordinal) else None)))
              else
                (case digits_at s p 2 of
                   None \<Rightarrow> None
                 | Some m \<Rightarrow>
                     if uses_separator \<and> byte_at s (p + 2) \<noteq> 45 then None
                     else
                       (case digits_at s (if uses_separator then p + 3 else p + 2) 2 of
                          None \<Rightarrow> None
                        | Some d \<Rightarrow> Some (y, m, d)))))"

text \<open>
  What \<open>parse_hh_mm_ss_ff\<close> does after the two digits at place \<open>p\<close>, the segment
  ending at \<open>end\<close>: stop (telling whether the next byte is not zero), go on with the next
  component, go on with the fraction, or fail.
\<close>

datatype step = Fail | Done bool | Next nat | Fraction nat

definition after_component :: "bytes \<Rightarrow> nat \<Rightarrow> bool \<Rightarrow> nat \<Rightarrow> step" where
  "after_component s end has_separator p =
     (let c = byte_at s (p + 2)
      in if end \<le> p + 3 then Done (c \<noteq> 0)
         else if has_separator \<and> c = 58 then Next (p + 3)
         else if c = 46 \<or> c = 44 then Fraction (p + 3)
         else if \<not> has_separator then Next (p + 2)
         else Fail)"

text \<open>
  The fraction from place \<open>p\<close>: up to six digits count, further digits are skipped, and
  the result tells whether the byte after them is not zero.
\<close>

definition parse_fraction :: "bytes \<Rightarrow> nat \<Rightarrow> nat \<Rightarrow> (nat \<times> bool) option" where
  "parse_fraction s end p =
     (let k = min (end - p) 6
      in case digits_at s p k of
           None \<Rightarrow> None
         | Some v \<Rightarrow>
             Some (v * 10 ^ (6 - k),
                   byte_at s (p + k + length (takeWhile is_digit (drop (p + k) s))) \<noteq> 0))"

text \<open>
  \<open>parse_hh_mm_ss_ff\<close> on the segment from \<open>start\<close> to \<open>end\<close>: hour, minute, second,
  microsecond, and whether something is left.
\<close>

definition with_fraction ::
  "bytes \<Rightarrow> nat \<Rightarrow> nat \<Rightarrow> nat \<Rightarrow> nat \<Rightarrow> nat \<Rightarrow> (nat \<times> nat \<times> nat \<times> nat \<times> bool) option" where
  "with_fraction s end h m x p =
     (case parse_fraction s end p of
        None \<Rightarrow> None
      | Some (us, left) \<Rightarrow> Some (h, m, x, us, left))"

definition parse_hh_mm_ss_ff ::
  "bytes \<Rightarrow> nat \<Rightarrow> nat \<Rightarrow> (nat \<times> nat \<times> nat \<times> nat \<times> bool) option" where
  "parse_hh_mm_ss_ff s start end =
     (case digits_at s start 2 of
        None \<Rightarrow> None
      | Some h \<Rightarrow>
          (let has_separator = (byte_at s (start + 2) = 58)
           in case after_component s end has_separator start of
                Fail \<Rightarrow> None
              | Done left \<Rightarrow> Some (h, 0, 0, 0, left)
              | Fraction p \<Rightarrow> with_fraction s end h 0 0 p
              | Next p \<Rightarrow>
                  (case digits_at s p 2 of
                     None \<Rightarrow> None
                   | Some m \<Rightarrow>
                       (case after_component s end has_separator p of
                          Fail \<Rightarrow> None
                        | Done left \<Rightarrow> Some (h, m, 0, 0, left)
                        | Fraction q \<Rightarrow> with_fraction s end h m 0 q
                        | Next q \<Rightarrow>
                            (case digits_at s q 2 of
                               None \<Rightarrow> None
                             | Some x \<Rightarrow>
                                 (case after_component s end has_separator q of
                                    Fail \<Rightarrow> None
                                  | Done left \<Rightarrow> Some (h, m, x, 0, left)
                                  | Fraction r \<Rightarrow> with_fraction s end h m x r
                                  | Next r \<Rightarrow> with_fraction s end h m x r))))))"

definition is_tz_start :: "nat \<Rightarrow> bool" where
  "is_tz_start c \<longleftrightarrow> c = 43 \<or> c = 45 \<or> c = 90"

text \<open>
  \<open>parse_isoformat_time\<close> from place \<open>start\<close>: the time of day and, after the first
  \<open>Z\<close>, \<open>+\<close> or \<open>-\<close>, the offset in microseconds.  An offset of zero whole seconds
  is UTC whatever its fraction.
\<close>

definition parse_isoformat_time ::
  "bytes \<Rightarrow> nat \<Rightarrow> ((nat \<times> nat \<times> nat \<times> nat) \<times> int option) option" where
  "parse_isoformat_time s start =
     (let n = length s;
          tz_pos = start + length (takeWhile (\<lambda>c. \<not> is_tz_start c) (drop start s))
      in case parse_hh_mm_ss_ff s start tz_pos of
           None \<Rightarrow> None
         | Some (h, m, x, us, left) \<Rightarrow>
             if n \<le> tz_pos then (if left then None else Some ((h, m, x, us), None))
             else if byte_at s tz_pos = 90 then
               (if byte_at s (tz_pos + 1) \<noteq> 0 then None else Some ((h, m, x, us), Some 0))
             else
               (case parse_hh_mm_ss_ff s (tz_pos + 1) n of
                  None \<Rightarrow> None
                | Some (oh, om, os, ous, oleft) \<Rightarrow>
                    if oleft then None
                    else
                      (let secs = oh * 3600 + om * 60 + os
                       in if secs = 0 then Some ((h, m, x, us), Some 0)
                          else if byte_at s tz_pos = 45
                          then Some ((h, m, x, us), Some (- int (secs * 1000000 + ous)))
                          else Some ((h, m, x, us), Some (int (secs * 1000000 + ous))))))"

text \<open>The number of bytes of the character that starts with the byte \<open>b\<close>.\<close>

definition separator_width :: "nat \<Rightarrow> nat" where
  "separator_width b =
     (if b < 128 then 1
      else if b div 16 = 14 then 3
      else if b div 16 = 15 then 4
      else if b div 16 = 12 \<or> b div 16 = 13 then 2
      else 1)"

definition fromisoformat :: "ustr \<Rightarrow> error + datetime" where
  "fromisoformat date_string =
     (if length date_string < 7 then Inl ValueError
      else
        (case encode_utf8 (sanitize_isoformat date_string) of
           None \<Rightarrow> Inl ValueError
         | Some s \<Rightarrow>
             (case find_isoformat_datetime_separator s of
                None \<Rightarrow> Inl ValueError
              | Some sep \<Rightarrow>
                  (case parse_isoformat_date s sep of
                     None \<Rightarrow> Inl ValueError
                   | Some (y, m, d) \<Rightarrow>
                       if length s \<le> sep then datetime_new y m d 0 0 0 0 None
                       else
                         (case parse_isoformat_time s (sep + separator_width (byte_at s sep)) of
                            None \<Rightarrow> Inl ValueError
                          | Some ((hh, mm, ss, us), tz) \<Rightarrow>
                              (case tz of
                                 None \<Rightarrow> datetime_new y m d hh mm ss us None
                               | Some off \<Rightarrow>
                                   if - 86400000000 < off \<and> off < 86400000000
                                   then datetime_new y m d hh mm ss us (Some off)
                                   else Inl ValueError))))))"

section \<open>JSON values\<close>

text \<open>
  What \<open>json.load\<close> returns: a dict is the list of its items, with distinct keys, read
  with \<open>map_of\<close>; a number is an integer.
\<close>

datatype json =
    JNull | JBool bool | JInt int | JStr ustr | JList "json list"
  | JDict "(string \<times> json) list"

type_synonym jdict = "(string \<times> json) list"

text \<open>\<open>key in d\<close> and \<open>d[key]\<close> for a dict.\<close>

definition has_key :: "string \<Rightarrow> jdict \<Rightarrow> bool" where
  "has_key k d = (map_of d k \<noteq> None)"

definition get_item :: "jdict \<Rightarrow> string \<Rightarrow> error + json" where
  "get_item d k = (case map_of d k of None \<Rightarrow> Inl KeyError | Some v \<Rightarrow> Inr v)"

text \<open>The truth value of a JSON value in a condition.\<close>

fun truthy :: "json \<Rightarrow> bool" where
  "truthy JNull = False"
| "truthy (JBool b) = b"
| "truthy (JInt n) = (n \<noteq> 0)"
| "truthy (JStr s) = (s \<noteq> [])"
| "truthy (JList xs) = (xs \<noteq> [])"
| "truthy (JDict d) = (d \<noteq> [])"

section \<open>Message and Conversation\<close>

datatype app = Discord | Facebook

datatype kind = Text | Video | Photo | Sticker | Gif | File | Audio | Deleted

record Message =
  time :: ustr
  message_type :: kind
  content :: ustr
  author :: ustr
  platform :: app

record Conversation =
  participants_fb :: "ustr list"
  participants_discord :: "ustr list"
  path :: ustr
  messages :: "Message list"
  weekday_frequency :: "ustr \<rightharpoonup> nat"
  hour_frequency :: "ustr \<rightharpoonup> nat"
  day_frequency :: "ustr \<rightharpoonup> nat"
  participants_message_count :: "ustr \<rightharpoonup> nat"
  participants_message_length :: "ustr \<rightharpoonup> nat list"

text \<open>\<open>Conversation.__init__\<close>; the emoji counter is not part of the model.\<close>

definition Conversation_init :: "ustr \<Rightarrow> ustr list \<Rightarrow> ustr list \<Rightarrow> Conversation" where
  "Conversation_init p fb discord =
     \<lparr>participants_fb = fb, participants_discord = discord, path = p, messages = [],
      weekday_frequency = Map.empty, hour_frequency = Map.empty, day_frequency = Map.empty,
      participants_message_count = Map.empty,
      participants_message_length = map_of (map (\<lambda>participant. (participant, [])) (fb @ discord))\<rparr>"

definition add_message :: "Conversation \<Rightarrow> Message \<Rightarrow> Conversation" where
  "add_message c m = c\<lparr>messages := messages c @ [m]\<rparr>"

section \<open>load_messages\<close>

text \<open>
  The classification chain of the loop body (lines 247 to 270).  The result is the
  message type with the content, or \<open>None\<close> where the source executes \<open>continue\<close>.
  \<open>used_app\<close> is \<open>None\<close> while the variable is unbound.
\<close>

definition classify_message :: "app option \<Rightarrow> jdict \<Rightarrow> error + (kind \<times> ustr) option" where
  "classify_message used_app message =
     (if has_key ''content'' message then
        (case used_app of
           None \<Rightarrow> Inl UnboundLocalError
         | Some a \<Rightarrow>
             ebind (get_item message ''content'')
               (\<lambda>v. case v of
                  JStr s \<Rightarrow>
                    ebind (case a of Facebook \<Rightarrow> repair_latin1_utf8 s | Discord \<Rightarrow> repair_utf16 s)
                      (\<lambda>message_content. Inr (Some (Text, convert_symbols_to_emojis message_content)))
                | _ \<Rightarrow> Inl AttributeError))
      else if has_key ''videos'' message then Inr (Some (Video, []))
      else if has_key ''photos'' message then Inr (Some (Photo, []))
      else if has_key ''sticker'' message then Inr (Some (Sticker, []))
      else if has_key ''gifs'' message then Inr (Some (Gif, []))
      else if has_key ''files'' message then Inr (Some (File, []))
      else if has_key ''audio_files'' message then Inr (Some (Audio, []))
      else
        ebind (get_item message ''is_unsent'')
          (\<lambda>v. if truthy v then Inr (Some (Deleted, [])) else Inr None))"

text \<open>
  Line 274: \<open>datetime.fromtimestamp(message_date/1000).ctime()\<close>.  The quotient is a
  float whose whole seconds are the floor of the division (exactly so for every timestamp
  of a supported year; the rounding of the float is not modelled, which can move the
  limits between the three errors by the spacing of the floats there); a JSON boolean is
  a Python integer; anything else cannot be divided.
\<close>

definition facebook_message_date :: "int \<Rightarrow> json \<Rightarrow> error + ustr" where
  "facebook_message_date tz message_date =
     (case message_date of
        JInt ms \<Rightarrow> ebind (fromtimestamp tz (ms div 1000)) (\<lambda>dt. Inr (ctime dt))
      | JBool b \<Rightarrow> ebind (fromtimestamp tz 0) (\<lambda>dt. Inr (ctime dt))
      | _ \<Rightarrow> Inl TypeError)"

text \<open>
  Line 278:
  \<open>datetime.fromisoformat(message_date.split(".")[0]).astimezone(get_localzone()).ctime()\<close>.
\<close>

definition discord_message_date :: "int \<Rightarrow> json \<Rightarrow> error + ustr" where
  "discord_message_date tz message_date =
     (case message_date of
        JStr s \<Rightarrow>
          ebind (py_index (split_sep 46 s) 0)
            (\<lambda>head. ebind (fromisoformat head)
               (\<lambda>dt. ebind (astimezone tz dt) (\<lambda>local. Inr (ctime local))))
      | _ \<Rightarrow> Inl AttributeError)"

text \<open>
  Lines 272 to 279: the date and the author of a message that was not skipped.  The
  author of a Discord message is stored as it is read.  A Message of the model holds a
  string as its author: a name that is another JSON value, which the source would store
  as well, ends the model with TypeError, and no statement below covers such a message.
\<close>

definition message_date_author :: "int \<Rightarrow> app option \<Rightarrow> jdict \<Rightarrow> error + (ustr \<times> ustr \<times> app)" where
  "message_date_author tz used_app message =
     (case used_app of
        None \<Rightarrow> Inl UnboundLocalError
      | Some Facebook \<Rightarrow>
          ebind (get_item message ''timestamp_ms'')
            (\<lambda>ts. ebind (facebook_message_date tz ts)
               (\<lambda>message_date. ebind (get_item message ''sender_name'')
                  (\<lambda>n. case n of
                     JStr s \<Rightarrow>
                       ebind (repair_latin1_utf8 s)
                         (\<lambda>message_author. Inr (message_date, message_author, Facebook))
                   | _ \<Rightarrow> Inl AttributeError)))
      | Some Discord \<Rightarrow>
          ebind (get_item message ''timestamp'')
            (\<lambda>ts. ebind (discord_message_date tz ts)
               (\<lambda>message_date. ebind (get_item message ''author'')
                  (\<lambda>a. case a of
                     JDict d \<Rightarrow>
                       ebind (get_item d ''name'')
                         (\<lambda>n. case n of
                            JStr message_author \<Rightarrow> Inr (message_date, message_author, Discord)
                          | _ \<Rightarrow> Inl TypeError)
                   | _ \<Rightarrow> Inl TypeError))))"

text \<open>
  A message that is not a dict.  On a string \<open>in\<close> looks for a substring and on a list
  for an element, so the tests of the chain pass without error; when one of them holds, the
  next statement reads \<open>used_app\<close>, and the first subscript with a string raises
  TypeError.  On any other value the first \<open>in\<close> raises TypeError.
\<close>

fun contains :: "'a list \<Rightarrow> 'a list \<Rightarrow> bool" where
  "contains w [] = (w = [])"
| "contains w (c # cs) = (take (length w) (c # cs) = w \<or> contains w cs)"

definition payload_keys :: "string list" where
  "payload_keys =
     [''content'', ''videos'', ''photos'', ''sticker'', ''gifs'', ''files'', ''audio_files'']"

definition mentions_payload :: "json \<Rightarrow> bool" where
  "mentions_payload message =
     (case message of
        JStr s \<Rightarrow> list_ex (\<lambda>k. contains (ascii k) s) payload_keys
      | JList xs \<Rightarrow> list_ex (\<lambda>k. JStr (ascii k) \<in> set xs) payload_keys
      | _ \<Rightarrow> False)"

definition process_other :: "app option \<Rightarrow> json \<Rightarrow> error" where
  "process_other used_app message =
     (if mentions_payload message \<and> used_app = None then UnboundLocalError else TypeError)"

text \<open>One turn of the inner loop: the Message to append, if any.\<close>

definition process_message :: "int \<Rightarrow> app option \<Rightarrow> json \<Rightarrow> error + Message option" where
  "process_message tz used_app message =
     (case message of
        JDict m \<Rightarrow>
          ebind (classify_message used_app m)
            (\<lambda>r. case r of
               None \<Rightarrow> Inr None
             | Some (ty, message_content) \<Rightarrow>
                 ebind (message_date_author tz used_app m)
                   (\<lambda>(message_date, message_author, a).
                      Inr (Some \<lparr>time = message_date, message_type = ty,
                                 content = message_content, author = message_author,
                                 platform = a\<rparr>)))
      | _ \<Rightarrow> Inl (process_other used_app message))"

fun load_file_messages ::
  "int \<Rightarrow> app option \<Rightarrow> json list \<Rightarrow> Conversation \<Rightarrow> error + Conversation" where
  "load_file_messages tz used_app [] conversation = Inr conversation"
| "load_file_messages tz used_app (message # rest) conversation =
     (case process_message tz used_app message of
        Inl e \<Rightarrow> Inl e
      | Inr None \<Rightarrow> load_file_messages tz used_app rest conversation
      | Inr (Some m) \<Rightarrow> load_file_messages tz used_app rest (add_message conversation m))"

text \<open>
  \<open>for message in messages["messages"]\<close>: a list gives its elements, a string its
  characters, a dict its keys; nothing else can be iterated.
\<close>

definition iter_messages :: "json \<Rightarrow> error + json list" where
  "iter_messages v =
     (case v of
        JList xs \<Rightarrow> Inr xs
      | JStr s \<Rightarrow> Inr (map (\<lambda>c. JStr [c]) s)
      | JDict d \<Rightarrow> Inr (map (\<lambda>(k, x). JStr (ascii k)) d)
      | _ \<Rightarrow> Inl TypeError)"

text \<open>Lines 241 to 244: \<open>used_app\<close> keeps its value when neither key is present.\<close>

definition detect_app :: "app option \<Rightarrow> jdict \<Rightarrow> app option" where
  "detect_app used_app root =
     (if has_key ''channel'' root then Some Discord
      else if has_key ''participants'' root then Some Facebook
      else used_app)"

text \<open>
  The loop over the files, given their decoded contents in the order of \<open>file_list\<close>.
  \<open>used_app\<close> is a local variable of the function: it lives across the files.
\<close>

fun load_files :: "int \<Rightarrow> json list \<Rightarrow> app option \<Rightarrow> Conversation \<Rightarrow> error + Conversation" where
  "load_files tz [] used_app conversation = Inr conversation"
| "load_files tz (file # rest) used_app conversation =
     (case file of
        JDict root \<Rightarrow>
          (case get_item root ''messages'' of
             Inl e \<Rightarrow> Inl e
           | Inr v \<Rightarrow>
               (case iter_messages v of
                  Inl e \<Rightarrow> Inl e
                | Inr ms \<Rightarrow>
                    (case load_file_messages tz (detect_app used_app root) ms conversation of
                       Inl e \<Rightarrow> Inl e
                     | Inr c \<Rightarrow> load_files tz rest (detect_app used_app root) c)))
      | _ \<Rightarrow> Inl TypeError)"

subsection \<open>The file list\<close>

text \<open>
  \<open>glob.glob(f"{conversation.path}/*.json")\<close> over a directory given as the list of its
  file names with their decoded contents, in the order the file system yields them, for a
  path without the characters \<open>*\<close>, \<open>?\<close> and \<open>[\<close>: the names that end in
  \<open>.json\<close> and do not start with a dot, joined to the directory part of the pattern.
  That part is what \<open>os.path.split\<close> returns: the path without its trailing slashes,
  unless it consists of slashes only.
\<close>

definition matches_json :: "ustr \<Rightarrow> bool" where
  "matches_json name \<longleftrightarrow>
     5 \<le> length name \<and> drop (length name - 5) name = ascii ''.json'' \<and> take 1 name \<noteq> [46]"

definition glob_dirname :: "ustr \<Rightarrow> ustr" where
  "glob_dirname p =
     (if list_all (\<lambda>c. c = 47) p then p @ [47]
      else rev (dropWhile (\<lambda>c. c = 47) (rev p)))"

definition path_join :: "ustr \<Rightarrow> ustr \<Rightarrow> ustr" where
  "path_join a b = (if a = [] \<or> last a = 47 then a @ b else a @ [47] @ b)"

definition glob_json :: "ustr \<Rightarrow> (ustr \<times> 'a) list \<Rightarrow> (ustr \<times> 'a) list" where
  "glob_json p dir =
     map (\<lambda>(name, x). (path_join (glob_dirname p) name, x))
       (filter (\<lambda>(name, x). matches_json name) dir)"

text \<open>
  The sort key \<open>"{0:0>20}".format(x).lower()\<close>; \<open>lower\<close> is modelled on the ASCII
  letters.  \<open>list.sort\<close> is stable and compares the keys as strings, code point by code
  point.
\<close>

definition lower_char :: "nat \<Rightarrow> nat" where
  "lower_char c = (if 65 \<le> c \<and> c \<le> 90 then c + 32 else c)"

definition file_sort_key :: "ustr \<Rightarrow> ustr" where
  "file_sort_key x = map lower_char (rjust 20 48 x)"

definition sort_file_list :: "(ustr \<times> 'a) list \<Rightarrow> (ustr \<times> 'a) list" where
  "sort_file_list file_list = sort_key (\<lambda>f. file_sort_key (fst f)) file_list"

definition load_messages :: "int \<Rightarrow> (ustr \<times> json) list \<Rightarrow> Conversation \<Rightarrow> error + Conversation" where
  "load_messages tz dir conversation =
     load_files tz (map snd (sort_file_list (glob_json (path conversation) dir))) None conversation"

section \<open>The aggregator\<close>

text \<open>\<open>if k not in d: d[k] = 0\<close> followed by \<open>d[k] += 1\<close>.\<close>

definition bump :: "(ustr \<rightharpoonup> nat) \<Rightarrow> ustr \<Rightarrow> (ustr \<rightharpoonup> nat)" where
  "bump d k = d(k \<mapsto> (case d k of None \<Rightarrow> 0 | Some n \<Rightarrow> n) + 1)"

text \<open>The keys the three histograms take from a time string (lines 52, 59 and 66).\<close>

definition weekday_key :: "ustr \<Rightarrow> error + ustr" where
  "weekday_key t = py_index (split_sep 32 t) 0"

definition hour_key :: "ustr \<Rightarrow> error + ustr" where
  "hour_key t = ebind (py_index (split_sep 58 t) 0) (\<lambda>h. py_index (split_sep 32 h) (- 1))"

definition day_key :: "ustr \<Rightarrow> error + ustr" where
  "day_key t =
     ebind (py_index (split_ws t) 1)
       (\<lambda>mon. ebind (py_index (split_sep 58 t) 0)
          (\<lambda>h. ebind (py_index (split_ws h) (- 2))
             (\<lambda>d. ebind (py_index (split_ws t) (- 1))
                (\<lambda>y. Inr (mon @ [32] @ d @ [32] @ y)))))"

fun weekday_loop :: "Message list \<Rightarrow> Conversation \<Rightarrow> error + Conversation" where
  "weekday_loop [] c = Inr c"
| "weekday_loop (message # rest) c =
     (case weekday_key (time message) of
        Inl e \<Rightarrow> Inl e
      | Inr k \<Rightarrow> weekday_loop rest (c\<lparr>weekday_frequency := bump (weekday_frequency c) k\<rparr>))"

definition get_weekday_frequency :: "Conversation \<Rightarrow> error + Conversation" where
  "get_weekday_frequency c = weekday_loop (messages c) c"

fun hour_loop :: "Message list \<Rightarrow> Conversation \<Rightarrow> error + Conversation" where
  "hour_loop [] c = Inr c"
| "hour_loop (message # rest) c =
     (case hour_key (time message) of
        Inl e \<Rightarrow> Inl e
      | Inr k \<Rightarrow> hour_loop rest (c\<lparr>hour_frequency := bump (hour_frequency c) k\<rparr>))"

definition get_hour_frequency :: "Conversation \<Rightarrow> error + Conversation" where
  "get_hour_frequency c = hour_loop (messages c) c"

fun day_loop :: "Message list \<Rightarrow> Conversation \<Rightarrow> error + Conversation" where
  "day_loop [] c = Inr c"
| "day_loop (message # rest) c =
     (case day_key (time message) of
        Inl e \<Rightarrow> Inl e
      | Inr k \<Rightarrow> day_loop rest (c\<lparr>day_frequency := bump (day_frequency c) k\<rparr>))"

definition get_day_frequency :: "Conversation \<Rightarrow> error + Conversation" where
  "get_day_frequency c = day_loop (messages c) c"

text \<open>
  \<open>analyze_message_length\<close>: the count is bumped, then the list of the author is looked
  up, which raises KeyError for an author without an entry, and the length is appended.
\<close>

fun analyze_loop :: "Message list \<Rightarrow> Conversation \<Rightarrow> error + Conversation" where
  "analyze_loop [] c = Inr c"
| "analyze_loop (message # rest) c =
     (let c1 = c\<lparr>participants_message_count :=
                   bump (participants_message_count c) (author message)\<rparr>
      in case participants_message_length c1 (author message) of
           None \<Rightarrow> Inl KeyError
         | Some l \<Rightarrow>
             analyze_loop rest
               (c1\<lparr>participants_message_length :=
                     (participants_message_length c1)
                       (author message \<mapsto> l @ [length (content message)])\<rparr>))"

definition analyze_message_length :: "Conversation \<Rightarrow> error + Conversation" where
  "analyze_message_length c = analyze_loop (messages c) c"

text \<open>What the aggregation leaves for one participant, or the error it raises.\<close>

definition samples_after_analysis :: "Conversation \<Rightarrow> ustr \<Rightarrow> error + nat list option" where
  "samples_after_analysis c a =
     (case analyze_message_length c of
        Inl e \<Rightarrow> Inl e
      | Inr c' \<Rightarrow> Inr (participants_message_length c' a))"

definition count_after_analysis :: "Conversation \<Rightarrow> ustr \<Rightarrow> error + nat option" where
  "count_after_analysis c a =
     (case analyze_message_length c of
        Inl e \<Rightarrow> Inl e
      | Inr c' \<Rightarrow> Inr (participants_message_count c' a))"

text \<open>
  The length samples as the specification words them: the character lengths of the
  participant's messages of kind text.
\<close>

definition spec_text_lengths :: "Conversation \<Rightarrow> ustr \<Rightarrow> nat list" where
  "spec_text_lengths c a =
     map (\<lambda>m. length (content m))
       (filter (\<lambda>m. author m = a \<and> message_type m = Text) (messages c))"

section \<open>Example corpora\<close>

text \<open>
  A Facebook export of one photo message by A, and the conversation that ingesting it
  gives on a host at UTC.
\<close>

definition photo_dir :: "(ustr \<times> json) list" where
  "photo_dir =
     [(ascii ''message_1.json'',
       JDict [(''participants'', JList [JDict [(''name'', JStr (ascii ''A''))]]),
              (''messages'',
               JList [JDict [(''sender_name'', JStr (ascii ''A'')),
                             (''timestamp_ms'', JInt 0),
                             (''photos'', JList [])]])])]"

definition photo_message :: Message where
  "photo_message =
     \<lparr>time = ascii ''Thu Jan  1 00:00:00 1970'', message_type = Photo, content = [],
      author = ascii ''A'', platform = Facebook\<rparr>"

definition photo_conversation :: Conversation where
  "photo_conversation =
     add_message (Conversation_init (ascii ''kiki'') [ascii ''A''] []) photo_message"

text \<open>A Facebook message with a text and a video, and the Message it becomes.\<close>

definition caption_video_message :: jdict where
  "caption_video_message =
     [(''sender_name'', JStr (ascii ''A'')), (''timestamp_ms'', JInt 0),
      (''content'', JStr (ascii ''hi'')), (''videos'', JList [])]"

definition caption_video_result :: Message where
  "caption_video_result =
     \<lparr>time = ascii ''Thu Jan  1 00:00:00 1970'', message_type = Text, content = ascii ''hi'',
      author = ascii ''A'', platform = Facebook\<rparr>"

text \<open>
  A Facebook message that carries the given payload fields and a set unsent flag, without
  a text, and the Message of a given kind it becomes.
\<close>

definition payload_message :: "string list \<Rightarrow> jdict" where
  "payload_message ks =
     [(''sender_name'', JStr (ascii ''A'')), (''timestamp_ms'', JInt 0)]
       @ map (\<lambda>k. (k, JList [])) ks @ [(''is_unsent'', JBool True)]"

definition payload_result :: "kind \<Rightarrow> Message" where
  "payload_result ty =
     \<lparr>time = ascii ''Thu Jan  1 00:00:00 1970'', message_type = ty, content = [],
      author = ascii ''A'', platform = Facebook\<rparr>"

text \<open>
  A Discord export whose only message comes from the account bob with the nickname
  Bobby, and the conversation that ingesting it gives when the metadata holds the
  nickname.
\<close>

definition stranger_dir :: "(ustr \<times> json) list" where
  "stranger_dir =
     [(ascii ''chat.json'',
       JDict [(''channel'', JDict [(''name'', JStr (ascii ''general''))]),
              (''messages'',
               JList [JDict [(''timestamp'', JStr (ascii ''1970-01-01T00:00:00'')),
                             (''content'', JStr (ascii ''hi'')),
                             (''author'', JDict [(''name'', JStr (ascii ''bob'')),
                                                 (''nickname'', JStr (ascii ''Bobby''))])]])])]"

definition stranger_conversation :: Conversation where
  "stranger_conversation =
     add_message (Conversation_init (ascii ''kiki'') [ascii ''A''] [ascii ''Bobby''])
       \<lparr>time = ascii ''Thu Jan  1 00:00:00 1970'', message_type = Text, content = ascii ''hi'',
        author = ascii ''bob'', platform = Discord\<rparr>"

text \<open>
  A Facebook export whose only message has a sender and a timestamp and nothing else:
  no payload field and no \<open>is_unsent\<close> field.
\<close>

definition unsaved_dir :: "(ustr \<times> json) list" where
  "unsaved_dir =
     [(ascii ''message_1.json'',
       JDict [(''participants'', JList [JDict [(''name'', JStr (ascii ''A''))]]),
              (''messages'',
               JList [JDict [(''sender_name'', JStr (ascii ''A'')),
                             (''timestamp_ms'', JInt 0)]])])]"

text \<open>
  A Facebook file, followed by a file whose root has neither \<open>channel\<close> nor
  \<open>participants\<close>, and the conversation the source makes of them.
\<close>

definition unknown_root_dir :: "(ustr \<times> json) list" where
  "unknown_root_dir =
     [(ascii ''message_1.json'',
       JDict [(''participants'', JList [JDict [(''name'', JStr (ascii ''A''))]]),
              (''messages'',
               JList [JDict [(''sender_name'', JStr (ascii ''A'')),
                             (''timestamp_ms'', JInt 60000),
                             (''content'', JStr (ascii ''hello''))]])]),
      (ascii ''message_2.json'',
       JDict [(''messages'',
               JList [JDict [(''sender_name'', JStr (ascii ''A'')),
                             (''timestamp_ms'', JInt 0),
                             (''content'', JStr (ascii ''hi''))]])])]"

definition unknown_root_result :: Conversation where
  "unknown_root_result =
     add_message
       (add_message (Conversation_init (ascii ''kiki'') [ascii ''A''] [])
          \<lparr>time = ascii ''Thu Jan  1 00:01:00 1970'', message_type = Text,
           content = ascii ''hello'', author = ascii ''A'', platform = Facebook\<rparr>)
       \<lparr>time = ascii ''Thu Jan  1 00:00:00 1970'', message_type = Text, content = ascii ''hi'',
        author = ascii ''A'', platform = Facebook\<rparr>"

text \<open>
  The Discord timestamp as the specification words it: the sub-second digits are
  removed and the offset after them is kept, then the string is parsed, moved to the
  local zone and rendered.
\<close>

definition strip_subsecond :: "ustr \<Rightarrow> ustr" where
  "strip_subsecond s =
     (case dropWhile (\<lambda>c. c \<noteq> 46) s of
        [] \<Rightarrow> s
      | dot # rest \<Rightarrow> takeWhile (\<lambda>c. c \<noteq> 46) s @ dropWhile is_digit rest)"

definition spec_discord_message_date :: "int \<Rightarrow> ustr \<Rightarrow> error + ustr" where
  "spec_discord_message_date tz s =
     ebind (fromisoformat (strip_subsecond s))
       (\<lambda>dt. ebind (astimezone tz dt) (\<lambda>local. Inr (ctime local)))"

text \<open>A Discord message of the given account name, and the Message it becomes.\<close>

definition discord_message_named :: "ustr \<Rightarrow> jdict" where
  "discord_message_named n =
     [(''timestamp'', JStr (ascii ''2021-01-05T23:30:00'')),
      (''content'', JStr (ascii ''hi'')),
      (''author'', JDict [(''name'', JStr n), (''nickname'', JStr n)])]"

definition discord_result_named :: "ustr \<Rightarrow> Message" where
  "discord_result_named n =
     \<lparr>time = ascii ''Tue Jan  5 23:30:00 2021'', message_type = Text, content = ascii ''hi'',
      author = n, platform = Discord\<rparr>"

text \<open>The names of an export in twelve parts, and their paths below a folder.\<close>

definition export_name :: "nat \<Rightarrow> ustr" where
  "export_name n = ascii ''message_'' @ str_nat n @ ascii ''.json''"

definition twelve_files :: "(ustr \<times> nat) list" where
  "twelve_files = map (\<lambda>n. (export_name n, n)) [1, 2, 3, 4, 5, 6, 7, 8, 9, 10, 11, 12]"

definition ingestion_order :: "ustr \<Rightarrow> nat list" where
  "ingestion_order p = map snd (sort_file_list (glob_json p twelve_files))"

section \<open>Facts about split and join\<close>

lemma split_ws_tokens: "t \<in> set (split_ws s) \<Longrightarrow> is_token t"
proof (induction s rule: split_ws.induct)
  case 1
  then show ?case by simp
next
  case (2 c cs)
  show ?case
  proof (cases "is_space c")
    case True
    with 2 show ?thesis by simp
  next
    case False
    with 2 have "t = c # takeWhile (\<lambda>x. \<not> is_space x) cs \<or> is_token t"
      by auto
    moreover have "is_token (c # takeWhile (\<lambda>x. \<not> is_space x) cs)"
      using False by (auto simp: is_token_def list_all_iff dest: set_takeWhileD)
    ultimately show ?thesis by auto
  qed
qed

lemma split_ws_token_append:
  assumes "is_token t" and "is_space sp"
  shows "split_ws (t @ sp # rest) = t # split_ws rest"
proof -
  from assms(1) obtain c cs where t: "t = c # cs" and c: "\<not> is_space c"
    and cs: "\<And>x. x \<in> set cs \<Longrightarrow> \<not> is_space x"
    by (cases t) (auto simp: is_token_def list_all_iff)
  have tw: "takeWhile (\<lambda>x. \<not> is_space x) (cs @ sp # rest) = cs"
    using cs assms(2) by (simp add: takeWhile_append2)
  have dw: "dropWhile (\<lambda>x. \<not> is_space x) (cs @ sp # rest) = sp # rest"
    using cs assms(2) by (simp add: dropWhile_append2)
  show ?thesis using c tw dw assms(2) by (simp add: t)
qed

lemma split_ws_token_single:
  assumes "is_token t"
  shows "split_ws t = [t]"
proof -
  from assms obtain c cs where t: "t = c # cs" and c: "\<not> is_space c"
    and cs: "\<And>x. x \<in> set cs \<Longrightarrow> \<not> is_space x"
    by (cases t) (auto simp: is_token_def list_all_iff)
  have tw: "takeWhile (\<lambda>x. \<not> is_space x) cs = cs"
    and dw: "dropWhile (\<lambda>x. \<not> is_space x) cs = []"
    using cs by simp_all
  show ?thesis by (simp add: t c tw dw)
qed

lemma split_ws_join:
  "list_all is_token ts \<Longrightarrow> split_ws (join [32] ts) = ts"
proof (induction ts)
  case Nil
  show ?case by simp
next
  case (Cons t ts)
  show ?case
  proof (cases ts)
    case Nil
    with Cons.prems show ?thesis by (simp add: split_ws_token_single)
  next
    case (Cons t' ts')
    have sp: "is_space 32" by (simp add: is_space_def)
    have tok: "is_token t" and rest: "list_all is_token ts"
      using Cons.prems by simp_all
    have "join [32] (t # ts) = t @ 32 # join [32] ts"
      by (simp add: Cons)
    then show ?thesis
      using split_ws_token_append [OF tok sp] Cons.IH [OF rest] by simp
  qed
qed

lemma split_sep_nonempty: "split_sep sep s \<noteq> []"
  by (induction s) (auto split: list.splits)

lemma split_sep_free: "sep \<notin> set t \<Longrightarrow> split_sep sep t = [t]"
  by (induction t) auto

lemma split_sep_append:
  "split_sep sep (a @ sep # b) = split_sep sep a @ split_sep sep b"
proof (induction a)
  case Nil
  show ?case by simp
next
  case (Cons x a)
  show ?case
  proof (cases "x = sep")
    case True
    with Cons show ?thesis by simp
  next
    case False
    obtain t ts where ts: "split_sep sep a = t # ts"
      using split_sep_nonempty [of sep a] by (cases "split_sep sep a") auto
    with False Cons show ?thesis by simp
  qed
qed

lemma split_sep_free_append:
  "sep \<notin> set t \<Longrightarrow> split_sep sep (t @ sep # b) = t # split_sep sep b"
  by (simp add: split_sep_append split_sep_free)

lemma py_index_first: "py_index (x # xs) 0 = Inr x"
  by (simp add: py_index_def)

lemma py_index_last: "py_index (xs @ [x]) (- 1) = Inr x"
  by (simp add: py_index_def nat_diff_distrib' nth_append)

section \<open>The emoticon rewrite\<close>

lemma emoji_get_token: "is_token t \<Longrightarrow> is_token (emoji_get t)"
  by (auto simp: emoji_get_def convertable_emojis_def is_token_def is_space_def ascii_def
      split: option.splits if_splits)

lemma split_ws_convert:
  "split_ws (convert_symbols_to_emojis message) = map emoji_get (split_ws message)"
  unfolding convert_symbols_to_emojis_def
  by (rule split_ws_join) (auto simp: list_all_iff intro: emoji_get_token split_ws_tokens)

text \<open>
  C8.  The tokens of the output are the tokens of the input, each one replaced by its
  emoji when it is a key of the table and unchanged otherwise, and the output is these
  tokens joined by single spaces.  \<open>hi :) you\<close> becomes \<open>hi\<close>, U+1F642, \<open>you\<close>;
  \<open>hi:)you\<close> is one token, not a key, and comes back unchanged.
\<close>

theorem convert_symbols_to_emojis_token_exact:
  "split_ws (convert_symbols_to_emojis message) = map emoji_get (split_ws message)
   \<and> convert_symbols_to_emojis message = join [32] (split_ws (convert_symbols_to_emojis message))
   \<and> emoji_get t = (if t \<in> fst ` set convertable_emojis then the (map_of convertable_emojis t) else t)
   \<and> convert_symbols_to_emojis (ascii ''hi :) you'') = ascii ''hi '' @ [128578] @ ascii '' you''
   \<and> convert_symbols_to_emojis (ascii ''hi:)you'') = ascii ''hi:)you''"
proof -
  have a: "split_ws (convert_symbols_to_emojis message) = map emoji_get (split_ws message)"
    by (rule split_ws_convert)
  have b: "convert_symbols_to_emojis message
             = join [32] (split_ws (convert_symbols_to_emojis message))"
    by (simp only: a) (simp add: convert_symbols_to_emojis_def)
  have c: "emoji_get t
             = (if t \<in> fst ` set convertable_emojis then the (map_of convertable_emojis t) else t)"
  proof (cases "map_of convertable_emojis t")
    case None
    have "t \<notin> fst ` set convertable_emojis"
      using None by (simp add: map_of_eq_None_iff)
    then show ?thesis by (simp add: emoji_get_def None)
  next
    case (Some e)
    then have "(t, e) \<in> set convertable_emojis" by (rule map_of_SomeD)
    then have "t \<in> fst ` set convertable_emojis" by force
    with Some show ?thesis by (simp add: emoji_get_def)
  qed
  have d: "convert_symbols_to_emojis (ascii ''hi :) you'') = ascii ''hi '' @ [128578] @ ascii '' you''"
    by (simp add: convert_symbols_to_emojis_def ascii_def is_space_def emoji_get_def
        convertable_emojis_def)
  have e: "convert_symbols_to_emojis (ascii ''hi:)you'') = ascii ''hi:)you''"
    by (simp add: convert_symbols_to_emojis_def ascii_def is_space_def emoji_get_def
        convertable_emojis_def)
  from a b c d e show ?thesis by blast
qed

section \<open>Evaluating the model\<close>

lemmas calendar_defs = datetime_of_micros_def datetime_new_def valid_datetime_def ord2ymd_def
  days_before_month_def days_in_month_def is_leap_def weekday_def toordinal_def ymd2ord_def
  days_before_year_def seconds_of_datetime_def micros_of_datetime_def

lemmas ctime_defs = ctime_def hms_def rjust_def DayNames_def MonthNames_def ascii_def

lemmas iso_defs = fromisoformat_def sanitize_isoformat_def is_surrogate_def utf8_bytes_def
  find_isoformat_datetime_separator_def parse_isoformat_date_def iso_to_ordinal_def
  parse_isoformat_time_def parse_hh_mm_ss_ff_def after_component_def parse_fraction_def
  with_fraction_def digits_at_def byte_at_def is_digit_def is_tz_start_def
  separator_width_def

lemmas message_defs = process_message_def classify_message_def message_date_author_def
  facebook_message_date_def discord_message_date_def has_key_def get_item_def ebind_def
  repair_latin1_utf8_def repair_utf16_def encode_latin1_def

lemmas utf16_defs = encode_utf16_surrogatepass_def decode_utf16_def utf16_units_def
  unit_bytes_def

lemmas emoji_defs = convert_symbols_to_emojis_def is_space_def emoji_get_def
  convertable_emojis_def

lemmas load_defs = load_messages_def glob_json_def glob_dirname_def path_join_def
  matches_json_def sort_file_list_def file_sort_key_def lower_char_def detect_app_def
  iter_messages_def add_message_def Conversation_init_def

lemma photo_dir_loads:
  "load_messages 0 photo_dir (Conversation_init (ascii ''kiki'') [ascii ''A''] [])
     = Inr photo_conversation"
  by (simp add: photo_dir_def photo_conversation_def photo_message_def load_defs message_defs fromtimestamp_def
      calendar_defs ctime_defs Let_def)

lemma stranger_dir_loads:
  "load_messages 0 stranger_dir
     (Conversation_init (ascii ''kiki'') [ascii ''A''] [ascii ''Bobby''])
     = Inr stranger_conversation"
  by (simp add: stranger_dir_def stranger_conversation_def load_defs message_defs py_index_def
      iso_defs astimezone_def calendar_defs ctime_defs Let_def utf16_defs emoji_defs)

section \<open>Ingestion only appends\<close>

lemma load_file_messages_appends:
  "load_file_messages tz ua js c = Inr c' \<Longrightarrow>
   \<exists>new. c' = c\<lparr>messages := messages c @ new\<rparr>
        \<and> (\<forall>m\<in>set new. \<exists>j\<in>set js. process_message tz ua j = Inr (Some m))"
proof (induction js arbitrary: c)
  case Nil
  then show ?case by simp
next
  case (Cons j js)
  show ?case
  proof (cases "process_message tz ua j")
    case (Inl e)
    with Cons.prems show ?thesis by simp
  next
    case (Inr r)
    show ?thesis
    proof (cases r)
      case None
      with Inr Cons.prems have "load_file_messages tz ua js c = Inr c'" by simp
      from Cons.IH [OF this] show ?thesis by auto
    next
      case (Some m)
      with Inr Cons.prems have "load_file_messages tz ua js (add_message c m) = Inr c'"
        by simp
      from Cons.IH [OF this] obtain new where
        c': "c' = (add_message c m)\<lparr>messages := messages (add_message c m) @ new\<rparr>"
        and new: "\<forall>x\<in>set new. \<exists>j\<in>set js. process_message tz ua j = Inr (Some x)"
        by blast
      have "c' = c\<lparr>messages := messages c @ (m # new)\<rparr>"
        using c' by (simp add: add_message_def)
      moreover have "\<forall>x\<in>set (m # new). \<exists>k\<in>set (j # js). process_message tz ua k = Inr (Some x)"
        using new Inr Some by auto
      ultimately show ?thesis by blast
    qed
  qed
qed

lemma load_files_appends:
  "load_files tz fs ua c = Inr c' \<Longrightarrow>
   \<exists>new. c' = c\<lparr>messages := messages c @ new\<rparr>
        \<and> (\<forall>m\<in>set new. \<exists>ua' j. process_message tz ua' j = Inr (Some m))"
proof (induction fs arbitrary: ua c)
  case Nil
  then have "c' = c\<lparr>messages := messages c @ []\<rparr>" by simp
  then show ?case by (metis empty_iff list.set(1))
next
  case (Cons f fs)
  from Cons.prems obtain root v js c1 where
    f: "f = JDict root"
    and inner: "load_file_messages tz (detect_app ua root) js c = Inr c1"
    and outer: "load_files tz fs (detect_app ua root) c1 = Inr c'"
    by (auto split: json.splits sum.splits)
  from load_file_messages_appends [OF inner] obtain n1 where
    c1: "c1 = c\<lparr>messages := messages c @ n1\<rparr>"
    and n1: "\<forall>m\<in>set n1. \<exists>j\<in>set js. process_message tz (detect_app ua root) j = Inr (Some m)"
    by blast
  from Cons.IH [OF outer] obtain n2 where
    c': "c' = c1\<lparr>messages := messages c1 @ n2\<rparr>"
    and n2: "\<forall>m\<in>set n2. \<exists>ua' j. process_message tz ua' j = Inr (Some m)"
    by blast
  have "c' = c\<lparr>messages := messages c @ (n1 @ n2)\<rparr>"
    using c1 c' by simp
  moreover have "\<forall>m\<in>set (n1 @ n2). \<exists>ua' j. process_message tz ua' j = Inr (Some m)"
    using n1 n2 by (metis Un_iff set_append)
  ultimately show ?case by blast
qed

lemma load_messages_appends:
  "load_messages tz dir c = Inr c' \<Longrightarrow>
   \<exists>new. c' = c\<lparr>messages := messages c @ new\<rparr>
        \<and> (\<forall>m\<in>set new. \<exists>ua' j. process_message tz ua' j = Inr (Some m))"
  unfolding load_messages_def by (rule load_files_appends)

lemma classify_message_kind:
  "classify_message ua message = Inr (Some (ty, c)) \<Longrightarrow>
   ty = (if has_key ''content'' message then Text
         else if has_key ''videos'' message then Video
         else if has_key ''photos'' message then Photo
         else if has_key ''sticker'' message then Sticker
         else if has_key ''gifs'' message then Gif
         else if has_key ''files'' message then File
         else if has_key ''audio_files'' message then Audio
         else Deleted)
   \<and> (ty \<noteq> Text \<longrightarrow> c = [])"
  by (auto simp: classify_message_def ebind_def
      split: if_splits option.splits sum.splits json.splits app.splits)

lemma process_message_kind:
  "process_message tz ua (JDict message) = Inr (Some m) \<Longrightarrow>
   classify_message ua message = Inr (Some (message_type m, content m))"
  by (auto simp: process_message_def ebind_def split: sum.splits option.splits prod.splits)

lemma process_message_content:
  assumes "process_message tz ua j = Inr (Some m)"
  shows "message_type m \<noteq> Text \<longrightarrow> content m = []"
proof -
  from assms obtain message where j: "j = JDict message"
    by (auto simp: process_message_def split: json.splits)
  from process_message_kind [OF assms [unfolded j]]
  have "classify_message ua message = Inr (Some (message_type m, content m))" .
  from classify_message_kind [OF this] show ?thesis by simp
qed

section \<open>Message classification\<close>

text \<open>
  C7.  The kind of a message is decided by the tests for text, video, photo, sticker, gif,
  file, audio and deleted, in this order, and the first one that holds wins.  A message
  with \<open>content\<close> is never skipped and never of another kind than text, and with a
  known platform and a text that can be repaired it is the text with its emoticons
  rewritten.  Without \<open>content\<close>, the first payload field of the order that is there
  gives the kind, whatever follows it; with no payload field, a set unsent flag gives
  deleted.  The kind and content found go into the Message together with the date and the
  author.  So whenever a Message results its kind is the first match of the chain, and a
  message with both \<open>content\<close> and \<open>videos\<close> becomes a text message, never a video
  message.
\<close>

theorem classification_precedence:
  "(has_key ''content'' message \<longrightarrow>
      classify_message used_app message \<noteq> Inr None
      \<and> (\<forall>ty' c'. classify_message used_app message = Inr (Some (ty', c')) \<longrightarrow> ty' = Text)
      \<and> (\<forall>a' s r.
            used_app = Some a' \<and> map_of message ''content'' = Some (JStr s)
            \<and> (case a' of Facebook \<Rightarrow> repair_latin1_utf8 s | Discord \<Rightarrow> repair_utf16 s) = Inr r
            \<longrightarrow> classify_message used_app message
                  = Inr (Some (Text, convert_symbols_to_emojis r))))
   \<and> (\<not> has_key ''content'' message \<and> has_key ''videos'' message
        \<longrightarrow> classify_message used_app message = Inr (Some (Video, [])))
   \<and> (\<not> has_key ''content'' message \<and> \<not> has_key ''videos'' message
        \<and> has_key ''photos'' message
        \<longrightarrow> classify_message used_app message = Inr (Some (Photo, [])))
   \<and> (\<not> has_key ''content'' message \<and> \<not> has_key ''videos'' message
        \<and> \<not> has_key ''photos'' message \<and> has_key ''sticker'' message
        \<longrightarrow> classify_message used_app message = Inr (Some (Sticker, [])))
   \<and> (\<not> has_key ''content'' message \<and> \<not> has_key ''videos'' message
        \<and> \<not> has_key ''photos'' message \<and> \<not> has_key ''sticker'' message
        \<and> has_key ''gifs'' message
        \<longrightarrow> classify_message used_app message = Inr (Some (Gif, [])))
   \<and> (\<not> has_key ''content'' message \<and> \<not> has_key ''videos'' message
        \<and> \<not> has_key ''photos'' message \<and> \<not> has_key ''sticker'' message
        \<and> \<not> has_key ''gifs'' message \<and> has_key ''files'' message
        \<longrightarrow> classify_message used_app message = Inr (Some (File, [])))
   \<and> (\<not> has_key ''content'' message \<and> \<not> has_key ''videos'' message
        \<and> \<not> has_key ''photos'' message \<and> \<not> has_key ''sticker'' message
        \<and> \<not> has_key ''gifs'' message \<and> \<not> has_key ''files'' message
        \<and> has_key ''audio_files'' message
        \<longrightarrow> classify_message used_app message = Inr (Some (Audio, [])))
   \<and> (\<not> has_key ''content'' message \<and> \<not> has_key ''videos'' message
        \<and> \<not> has_key ''photos'' message \<and> \<not> has_key ''sticker'' message
        \<and> \<not> has_key ''gifs'' message \<and> \<not> has_key ''files'' message
        \<and> \<not> has_key ''audio_files'' message
        \<and> map_of message ''is_unsent'' = Some v \<and> truthy v
        \<longrightarrow> classify_message used_app message = Inr (Some (Deleted, [])))
   \<and> (classify_message used_app message = Inr (Some (ty, c))
        \<and> message_date_author tz used_app message = Inr (d, a, p)
        \<longrightarrow> process_message tz used_app (JDict message)
              = Inr (Some \<lparr>time = d, message_type = ty, content = c, author = a,
                           platform = p\<rparr>))
   \<and> (process_message tz used_app (JDict message) = Inr (Some m) \<longrightarrow>
        classify_message used_app message = Inr (Some (message_type m, content m))
        \<and> message_type m =
           (if has_key ''content'' message then Text
            else if has_key ''videos'' message then Video
            else if has_key ''photos'' message then Photo
            else if has_key ''sticker'' message then Sticker
            else if has_key ''gifs'' message then Gif
            else if has_key ''files'' message then File
            else if has_key ''audio_files'' message then Audio
            else Deleted)
        \<and> (has_key ''content'' message \<and> has_key ''videos'' message
             \<longrightarrow> message_type m = Text \<and> message_type m \<noteq> Video))"
proof -
  have text_kept: "has_key ''content'' message \<Longrightarrow> classify_message used_app message \<noteq> Inr None"
    by (auto simp: classify_message_def ebind_def get_item_def has_key_def
        split: option.splits json.splits sum.splits app.splits)
  have text_only: "\<And>ty' c'. has_key ''content'' message \<Longrightarrow>
      classify_message used_app message = Inr (Some (ty', c')) \<Longrightarrow> ty' = Text"
    by (auto simp: classify_message_def ebind_def get_item_def has_key_def
        split: option.splits json.splits sum.splits app.splits)
  have text_value: "\<And>a' s r. used_app = Some a' \<Longrightarrow>
      map_of message ''content'' = Some (JStr s) \<Longrightarrow>
      (case a' of Facebook \<Rightarrow> repair_latin1_utf8 s | Discord \<Rightarrow> repair_utf16 s) = Inr r \<Longrightarrow>
      classify_message used_app message = Inr (Some (Text, convert_symbols_to_emojis r))"
    by (simp add: classify_message_def ebind_def get_item_def has_key_def)
  have others:
    "\<not> has_key ''content'' message \<and> has_key ''videos'' message
        \<longrightarrow> classify_message used_app message = Inr (Some (Video, []))"
    "\<not> has_key ''content'' message \<and> \<not> has_key ''videos'' message
        \<and> has_key ''photos'' message
        \<longrightarrow> classify_message used_app message = Inr (Some (Photo, []))"
    "\<not> has_key ''content'' message \<and> \<not> has_key ''videos'' message
        \<and> \<not> has_key ''photos'' message \<and> has_key ''sticker'' message
        \<longrightarrow> classify_message used_app message = Inr (Some (Sticker, []))"
    "\<not> has_key ''content'' message \<and> \<not> has_key ''videos'' message
        \<and> \<not> has_key ''photos'' message \<and> \<not> has_key ''sticker'' message
        \<and> has_key ''gifs'' message
        \<longrightarrow> classify_message used_app message = Inr (Some (Gif, []))"
    "\<not> has_key ''content'' message \<and> \<not> has_key ''videos'' message
        \<and> \<not> has_key ''photos'' message \<and> \<not> has_key ''sticker'' message
        \<and> \<not> has_key ''gifs'' message \<and> has_key ''files'' message
        \<longrightarrow> classify_message used_app message = Inr (Some (File, []))"
    "\<not> has_key ''content'' message \<and> \<not> has_key ''videos'' message
        \<and> \<not> has_key ''photos'' message \<and> \<not> has_key ''sticker'' message
        \<and> \<not> has_key ''gifs'' message \<and> \<not> has_key ''files'' message
        \<and> has_key ''audio_files'' message
        \<longrightarrow> classify_message used_app message = Inr (Some (Audio, []))"
    "\<not> has_key ''content'' message \<and> \<not> has_key ''videos'' message
        \<and> \<not> has_key ''photos'' message \<and> \<not> has_key ''sticker'' message
        \<and> \<not> has_key ''gifs'' message \<and> \<not> has_key ''files'' message
        \<and> \<not> has_key ''audio_files'' message
        \<and> map_of message ''is_unsent'' = Some v \<and> truthy v
        \<longrightarrow> classify_message used_app message = Inr (Some (Deleted, []))"
    by (simp_all add: classify_message_def ebind_def get_item_def)
  have built: "classify_message used_app message = Inr (Some (ty, c))
        \<and> message_date_author tz used_app message = Inr (d, a, p)
        \<longrightarrow> process_message tz used_app (JDict message)
              = Inr (Some \<lparr>time = d, message_type = ty, content = c, author = a,
                           platform = p\<rparr>)"
    by (simp add: process_message_def ebind_def)
  have result: "process_message tz used_app (JDict message) = Inr (Some m) \<longrightarrow>
        classify_message used_app message = Inr (Some (message_type m, content m))
        \<and> message_type m =
           (if has_key ''content'' message then Text
            else if has_key ''videos'' message then Video
            else if has_key ''photos'' message then Photo
            else if has_key ''sticker'' message then Sticker
            else if has_key ''gifs'' message then Gif
            else if has_key ''files'' message then File
            else if has_key ''audio_files'' message then Audio
            else Deleted)
        \<and> (has_key ''content'' message \<and> has_key ''videos'' message
             \<longrightarrow> message_type m = Text \<and> message_type m \<noteq> Video)"
  proof
    assume run: "process_message tz used_app (JDict message) = Inr (Some m)"
    from process_message_kind [OF run]
    have k: "classify_message used_app message = Inr (Some (message_type m, content m))" .
    from classify_message_kind [OF k] k show
      "classify_message used_app message = Inr (Some (message_type m, content m))
        \<and> message_type m =
           (if has_key ''content'' message then Text
            else if has_key ''videos'' message then Video
            else if has_key ''photos'' message then Photo
            else if has_key ''sticker'' message then Sticker
            else if has_key ''gifs'' message then Gif
            else if has_key ''files'' message then File
            else if has_key ''audio_files'' message then Audio
            else Deleted)
        \<and> (has_key ''content'' message \<and> has_key ''videos'' message
             \<longrightarrow> message_type m = Text \<and> message_type m \<noteq> Video)"
      by simp
  qed
  from text_kept text_only text_value have text_case:
    "has_key ''content'' message \<longrightarrow>
      classify_message used_app message \<noteq> Inr None
      \<and> (\<forall>ty' c'. classify_message used_app message = Inr (Some (ty', c')) \<longrightarrow> ty' = Text)
      \<and> (\<forall>a' s r.
            used_app = Some a' \<and> map_of message ''content'' = Some (JStr s)
            \<and> (case a' of Facebook \<Rightarrow> repair_latin1_utf8 s | Discord \<Rightarrow> repair_utf16 s) = Inr r
            \<longrightarrow> classify_message used_app message
                  = Inr (Some (Text, convert_symbols_to_emojis r)))"
    by blast
  show ?thesis
    by (intro conjI text_case others built result)
qed

text \<open>
  A Facebook message with a text and a video is ingested as text; and a message without
  text is of the kind of its first payload field in the order of the chain, or deleted when
  it has none and the unsent flag is set.
\<close>

theorem classification_precedence_witness:
  "process_message 0 (Some Facebook) (JDict caption_video_message) = Inr (Some caption_video_result)
   \<and> has_key ''content'' caption_video_message \<and> has_key ''videos'' caption_video_message
   \<and> message_type caption_video_result = Text
   \<and> process_message 0 (Some Facebook)
        (JDict (payload_message
                  [''audio_files'', ''files'', ''gifs'', ''sticker'', ''photos'', ''videos'']))
       = Inr (Some (payload_result Video))
   \<and> process_message 0 (Some Facebook)
        (JDict (payload_message [''audio_files'', ''files'', ''gifs'', ''sticker'', ''photos'']))
       = Inr (Some (payload_result Photo))
   \<and> process_message 0 (Some Facebook)
        (JDict (payload_message [''audio_files'', ''files'', ''gifs'', ''sticker'']))
       = Inr (Some (payload_result Sticker))
   \<and> process_message 0 (Some Facebook)
        (JDict (payload_message [''audio_files'', ''files'', ''gifs'']))
       = Inr (Some (payload_result Gif))
   \<and> process_message 0 (Some Facebook) (JDict (payload_message [''audio_files'', ''files'']))
       = Inr (Some (payload_result File))
   \<and> process_message 0 (Some Facebook) (JDict (payload_message [''audio_files'']))
       = Inr (Some (payload_result Audio))
   \<and> process_message 0 (Some Facebook) (JDict (payload_message []))
       = Inr (Some (payload_result Deleted))"
proof -
  have h: "process_message 0 (Some Facebook) (JDict caption_video_message)
             = Inr (Some caption_video_result)"
    by (simp add: caption_video_message_def caption_video_result_def message_defs emoji_defs
        fromtimestamp_def calendar_defs ctime_defs Let_def)
  have k: "has_key ''content'' caption_video_message \<and> has_key ''videos'' caption_video_message"
    by (simp add: caption_video_message_def has_key_def)
  have date: "\<And>ks. message_date_author 0 (Some Facebook) (payload_message ks)
                 = Inr (ascii ''Thu Jan  1 00:00:00 1970'', ascii ''A'', Facebook)"
    by (simp add: payload_message_def message_date_author_def facebook_message_date_def
        get_item_def ebind_def repair_latin1_utf8_def encode_latin1_def fromtimestamp_def
        calendar_defs ctime_defs Let_def)
  note rule = classification_precedence [where tz = 0 and used_app = "Some Facebook"
      and d = "ascii ''Thu Jan  1 00:00:00 1970''" and a = "ascii ''A''" and p = Facebook
      and c = "[]" and v = "JBool True"]
  have video_case: "process_message 0 (Some Facebook)
        (JDict (payload_message
                  [''audio_files'', ''files'', ''gifs'', ''sticker'', ''photos'', ''videos'']))
       = Inr (Some (payload_result Video))"
    using rule [where ty = Video and message = "payload_message
                  [''audio_files'', ''files'', ''gifs'', ''sticker'', ''photos'', ''videos'']"]
      date [of "[''audio_files'', ''files'', ''gifs'', ''sticker'', ''photos'', ''videos'']"]
    by (simp add: payload_message_def payload_result_def has_key_def)
  have photo_case: "process_message 0 (Some Facebook)
        (JDict (payload_message [''audio_files'', ''files'', ''gifs'', ''sticker'', ''photos'']))
       = Inr (Some (payload_result Photo))"
    using rule [where ty = Photo and message = "payload_message
                  [''audio_files'', ''files'', ''gifs'', ''sticker'', ''photos'']"]
      date [of "[''audio_files'', ''files'', ''gifs'', ''sticker'', ''photos'']"]
    by (simp add: payload_message_def payload_result_def has_key_def)
  have sticker_case: "process_message 0 (Some Facebook)
        (JDict (payload_message [''audio_files'', ''files'', ''gifs'', ''sticker'']))
       = Inr (Some (payload_result Sticker))"
    using rule [where ty = Sticker and message = "payload_message
                  [''audio_files'', ''files'', ''gifs'', ''sticker'']"]
      date [of "[''audio_files'', ''files'', ''gifs'', ''sticker'']"]
    by (simp add: payload_message_def payload_result_def has_key_def)
  have gif_case: "process_message 0 (Some Facebook)
        (JDict (payload_message [''audio_files'', ''files'', ''gifs'']))
       = Inr (Some (payload_result Gif))"
    using rule [where ty = Gif and message = "payload_message
                  [''audio_files'', ''files'', ''gifs'']"]
      date [of "[''audio_files'', ''files'', ''gifs'']"]
    by (simp add: payload_message_def payload_result_def has_key_def)
  have file_case: "process_message 0 (Some Facebook)
        (JDict (payload_message [''audio_files'', ''files'']))
       = Inr (Some (payload_result File))"
    using rule [where ty = File and message = "payload_message [''audio_files'', ''files'']"]
      date [of "[''audio_files'', ''files'']"]
    by (simp add: payload_message_def payload_result_def has_key_def)
  have audio_case: "process_message 0 (Some Facebook) (JDict (payload_message [''audio_files'']))
       = Inr (Some (payload_result Audio))"
    using rule [where ty = Audio and message = "payload_message [''audio_files'']"]
      date [of "[''audio_files'']"]
    by (simp add: payload_message_def payload_result_def has_key_def)
  have deleted_case: "process_message 0 (Some Facebook) (JDict (payload_message []))
       = Inr (Some (payload_result Deleted))"
    using rule [where ty = Deleted and message = "payload_message []"]
      date [of "[]"]
    by (simp add: payload_message_def payload_result_def has_key_def)
  from rule [where message = caption_video_message and m = caption_video_result,
      THEN conjunct2, THEN conjunct2, THEN conjunct2, THEN conjunct2, THEN conjunct2,
      THEN conjunct2, THEN conjunct2, THEN conjunct2, THEN conjunct2, THEN mp, OF h]
  have "has_key ''content'' caption_video_message \<and> has_key ''videos'' caption_video_message
          \<longrightarrow> message_type caption_video_result = Text
              \<and> message_type caption_video_result \<noteq> Video"
    by (elim conjE)
  with k have t: "message_type caption_video_result = Text"
    by (elim conjE impE) (intro conjI, assumption+)
  from h k t video_case photo_case sticker_case gif_case file_case audio_case deleted_case
  show ?thesis
    by (intro conjI) (elim conjE, assumption)+
qed

text \<open>
  What the last test of the chain does: it reads \<open>message["is_unsent"]\<close>, so a message
  without payload is skipped when the field is there and false, and raises when the
  field is missing too.
\<close>

lemma unsent_false_is_dropped:
  assumes "\<not> has_key ''content'' message" "\<not> has_key ''videos'' message"
    "\<not> has_key ''photos'' message" "\<not> has_key ''sticker'' message"
    "\<not> has_key ''gifs'' message" "\<not> has_key ''files'' message"
    "\<not> has_key ''audio_files'' message"
    and "map_of message ''is_unsent'' = Some v" and "\<not> truthy v"
  shows "process_message tz used_app (JDict message) = Inr None"
  using assms by (simp add: process_message_def classify_message_def get_item_def ebind_def)

lemma unsent_absent_raises:
  assumes "\<not> has_key ''content'' message" "\<not> has_key ''videos'' message"
    "\<not> has_key ''photos'' message" "\<not> has_key ''sticker'' message"
    "\<not> has_key ''gifs'' message" "\<not> has_key ''files'' message"
    "\<not> has_key ''audio_files'' message"
    and "\<not> has_key ''is_unsent'' message"
  shows "process_message tz used_app (JDict message) = Inl KeyError"
  using assms
  by (simp add: process_message_def classify_message_def get_item_def ebind_def has_key_def)

text \<open>
  C1.  The claim is that a message without any payload field and without a set unsent
  flag is dropped and ingestion goes on.  The source reads the flag with
  \<open>message["is_unsent"]\<close>: on the export \<open>unsaved_dir\<close>, whose message has neither a
  payload field nor the flag, ingestion stops with KeyError.
\<close>

theorem unsaved_message_raises:
  "load_messages 0 unsaved_dir (Conversation_init (ascii ''kiki'') [ascii ''A''] [])
     = Inl KeyError"
  by (simp add: unsaved_dir_def load_defs message_defs ascii_def)

section \<open>Format detection\<close>

text \<open>
  C2.  The claim is that a file whose root has neither \<open>channel\<close> nor
  \<open>participants\<close> makes ingestion fail.  The source has no branch for it, and
  \<open>used_app\<close> keeps the value of the file before: the message of the second file of
  \<open>unknown_root_dir\<close> is ingested as a Facebook message.
\<close>

theorem unknown_root_ingested:
  "load_messages 0 unknown_root_dir (Conversation_init (ascii ''kiki'') [ascii ''A''] [])
     = Inr unknown_root_result
   \<and> map platform (messages unknown_root_result) = [Facebook, Facebook]
   \<and> map content (messages unknown_root_result) = [ascii ''hello'', ascii ''hi'']"
  by (simp add: unknown_root_dir_def unknown_root_result_def load_defs message_defs emoji_defs
      fromtimestamp_def calendar_defs ctime_defs Let_def)

section \<open>Discord timestamps\<close>

text \<open>
  Whatever follows the first dot of a Discord timestamp, the offset included, has no part
  in the result.
\<close>

lemma discord_fraction_hides_offset:
  assumes "46 \<notin> set head"
  shows "discord_message_date tz (JStr (head @ 46 # rest))
           = ebind (fromisoformat head)
               (\<lambda>dt. ebind (astimezone tz dt) (\<lambda>local. Inr (ctime local)))"
  by (simp add: discord_message_date_def split_sep_free_append [OF assms] py_index_first
      ebind_def)

text \<open>
  C3.  The claim is that the Discord timestamp is parsed with its offset and moved to the
  local zone.  \<open>split(".")[0]\<close> cuts the offset off together with the fraction, so the
  wall clock of the string is taken as local time: on a host one hour east of UTC,
  23:30 UTC of January 5 is rendered as 23:30 of January 5, where the specification gives
  00:30 of January 6.  The same string without a fraction keeps its offset and is
  converted.
\<close>

theorem discord_offset_dropped:
  "discord_message_date 3600 (JStr (ascii ''2021-01-05T23:30:00.123+00:00''))
     = Inr (ascii ''Tue Jan  5 23:30:00 2021'')
   \<and> spec_discord_message_date 3600 (ascii ''2021-01-05T23:30:00.123+00:00'')
       = Inr (ascii ''Wed Jan  6 00:30:00 2021'')
   \<and> discord_message_date 3600 (JStr (ascii ''2021-01-05T23:30:00+00:00''))
       = Inr (ascii ''Wed Jan  6 00:30:00 2021'')"
  by (simp add: message_defs spec_discord_message_date_def strip_subsecond_def py_index_def
      iso_defs astimezone_def calendar_defs ctime_defs Let_def)

section \<open>Authors\<close>

text \<open>The author of a Facebook message is the repaired sender name.\<close>

lemma facebook_author_repaired:
  assumes "process_message tz (Some Facebook) (JDict message) = Inr (Some m)"
  shows "\<exists>s. map_of message ''sender_name'' = Some (JStr s) \<and> repair_latin1_utf8 s = Inr (author m)"
  using assms
  by (auto simp: process_message_def message_date_author_def get_item_def ebind_def
      split: sum.splits option.splits prod.splits json.splits)

text \<open>
  The author of a Discord message is the name as \<open>json.load\<close> returned it.
\<close>

lemma discord_author_as_read:
  assumes "process_message tz (Some Discord) (JDict message) = Inr (Some m)"
  shows "\<exists>a. map_of message ''author'' = Some (JDict a)
             \<and> map_of a ''name'' = Some (JStr (author m))"
  using assms
  by (auto simp: process_message_def message_date_author_def get_item_def ebind_def
      split: sum.splits option.splits prod.splits json.splits)

text \<open>
  C5.  The claim is that the author of a Discord message is the name after the UTF-16
  round trip.  The source stores \<open>message["author"]["name"]\<close> as it is read: a name
  that is a lone high surrogate, which \<open>json.load\<close> returns for the escape
  \<open>\ud83d\<close>, is stored as the author, while the round trip raises on it.
\<close>

theorem discord_author_not_repaired:
  "process_message 3600 (Some Discord) (JDict (discord_message_named [55357]))
     = Inr (Some (discord_result_named [55357]))
   \<and> repair_utf16 [55357] = Inl UnicodeDecodeError"
  by (simp add: discord_message_named_def discord_result_named_def message_defs py_index_def
      iso_defs astimezone_def calendar_defs ctime_defs Let_def utf16_defs emoji_defs)

section \<open>The order of the files\<close>

text \<open>Below the folder \<open>kiki\<close> the twelve parts are read in the order of their numbers.\<close>

lemma natural_order_kiki:
  "ingestion_order (ascii ''kiki'') = [1, 2, 3, 4, 5, 6, 7, 8, 9, 10, 11, 12]"
  by (simp add: ingestion_order_def twelve_files_def export_name_def load_defs rjust_def
      ascii_def)

text \<open>
  C9.  The claim is that the parts \<open>message_1.json\<close> to \<open>message_12.json\<close> are
  read in the order of their numbers.  The key pads the whole path to 20 characters, so
  when the same folder is given as \<open>./kiki\<close>, where every path has 21 characters and
  more, nothing is padded and parts 10, 11 and 12 are read before part 2.
\<close>

theorem natural_order_fails:
  "ingestion_order (ascii ''./kiki'') = [1, 10, 11, 12, 2, 3, 4, 5, 6, 7, 8, 9]"
  by (simp add: ingestion_order_def twelve_files_def export_name_def load_defs rjust_def
      ascii_def)

section \<open>Message lengths per participant\<close>

lemma analyze_loop_error:
  "analyze_loop ms c = Inl e \<Longrightarrow> e = KeyError"
  by (induction ms arbitrary: c) (auto simp: Let_def split: option.splits)

lemma analyze_loop_fails_iff:
  "(analyze_loop ms c = Inl KeyError)
     = (\<exists>m\<in>set ms. participants_message_length c (author m) = None)"
proof (induction ms arbitrary: c)
  case Nil
  show ?case by simp
next
  case (Cons m ms)
  show ?case
  proof (cases "participants_message_length c (author m)")
    case None
    then show ?thesis by (simp add: Let_def)
  next
    case (Some l)
    have "(\<exists>x\<in>set ms. ((participants_message_length c)(author m \<mapsto> l @ [length (content m)])) (author x) = None)
            = (\<exists>x\<in>set ms. participants_message_length c (author x) = None)"
      using Some by (metis fun_upd_apply option.distinct(1))
    with Some show ?thesis by (simp add: Let_def Cons.IH del: fun_upd_apply)
  qed
qed

lemma analyze_loop_lengths:
  "analyze_loop ms c = Inr c' \<Longrightarrow>
   participants_message_length c' a =
     (case participants_message_length c a of
        None \<Rightarrow> None
      | Some l \<Rightarrow> Some (l @ map (\<lambda>m. length (content m)) (filter (\<lambda>m. author m = a) ms)))"
proof (induction ms arbitrary: c)
  case Nil
  then show ?case by (auto split: option.splits)
next
  case (Cons m ms)
  from Cons.prems obtain l where l: "participants_message_length c (author m) = Some l"
    by (auto simp: Let_def split: option.splits)
  let ?c2 = "c\<lparr>participants_message_count := bump (participants_message_count c) (author m),
               participants_message_length :=
                 (participants_message_length c)(author m \<mapsto> l @ [length (content m)])\<rparr>"
  from Cons.prems l have run: "analyze_loop ms ?c2 = Inr c'"
    by (simp add: Let_def)
  show ?case
    using Cons.IH [OF run] l by (auto split: option.splits)
qed

lemma analyze_loop_counts:
  "analyze_loop ms c = Inr c' \<Longrightarrow>
   participants_message_count c' a =
     (if filter (\<lambda>m. author m = a) ms = [] then participants_message_count c a
      else Some ((case participants_message_count c a of None \<Rightarrow> 0 | Some n \<Rightarrow> n)
                 + length (filter (\<lambda>m. author m = a) ms)))"
proof (induction ms arbitrary: c)
  case Nil
  then show ?case by simp
next
  case (Cons m ms)
  from Cons.prems obtain l where l: "participants_message_length c (author m) = Some l"
    by (auto simp: Let_def split: option.splits)
  let ?c2 = "c\<lparr>participants_message_count := bump (participants_message_count c) (author m),
               participants_message_length :=
                 (participants_message_length c)(author m \<mapsto> l @ [length (content m)])\<rparr>"
  from Cons.prems l have run: "analyze_loop ms ?c2 = Inr c'"
    by (simp add: Let_def)
  show ?case
    using Cons.IH [OF run] by (auto simp: bump_def split: option.splits)
qed

lemma init_lengths:
  "participants_message_length (Conversation_init p fb dc) a
     = (if a \<in> set (fb @ dc) then Some [] else None)"
proof (cases "a \<in> set (fb @ dc)")
  case True
  then have "(a, []) \<in> set (map (\<lambda>participant. (participant, [])) (fb @ dc))" by auto
  moreover have "\<And>v. (a, v) \<in> set (map (\<lambda>participant. (participant, [])) (fb @ dc)) \<Longrightarrow> v = []"
    by auto
  ultimately have "map_of (map (\<lambda>participant. (participant, [])) (fb @ dc)) a = Some []"
    by (metis map_of_SomeD weak_map_of_SomeI)
  with True show ?thesis by (simp add: Conversation_init_def)
next
  case False
  then have "map_of (map (\<lambda>participant. (participant, [])) (fb @ dc)) a = None"
    by (auto simp: map_of_eq_None_iff image_iff)
  with False show ?thesis by (simp add: Conversation_init_def)
qed

text \<open>
  C10.  For a conversation whose table of length samples is the one \<open>__init__\<close>
  created, the aggregation returns exactly when the author of every message is in one of
  the two participant lists, and raises KeyError exactly when some message has an author
  in neither.
\<close>

theorem analyze_message_length_total_iff:
  assumes "participants_message_length c = participants_message_length (Conversation_init p fb dc)"
  shows "(\<exists>c'. analyze_message_length c = Inr c')
           = (\<forall>m\<in>set (messages c). author m \<in> set (fb @ dc))
         \<and> (analyze_message_length c = Inl KeyError)
             = (\<exists>m\<in>set (messages c). author m \<notin> set (fb @ dc))"
proof -
  have none: "\<And>a. (participants_message_length c a = None) = (a \<notin> set (fb @ dc))"
    by (simp add: assms init_lengths)
  have fails: "(analyze_message_length c = Inl KeyError)
                 = (\<exists>m\<in>set (messages c). author m \<notin> set (fb @ dc))"
    by (simp only: analyze_message_length_def analyze_loop_fails_iff none)
  have "(\<exists>c'. analyze_message_length c = Inr c') = (analyze_message_length c \<noteq> Inl KeyError)"
  proof (cases "analyze_message_length c")
    case (Inl e)
    then have "e = KeyError"
      by (simp add: analyze_message_length_def analyze_loop_error)
    with Inl show ?thesis by simp
  next
    case (Inr c')
    then show ?thesis by simp
  qed
  with fails show ?thesis by auto
qed

text \<open>
  A Discord message under an account name that is no nickname of the metadata: it is
  ingested, and the aggregation raises.
\<close>

theorem analyze_message_length_total_iff_witness:
  "load_messages 0 stranger_dir
     (Conversation_init (ascii ''kiki'') [ascii ''A''] [ascii ''Bobby''])
     = Inr stranger_conversation
   \<and> participants_message_length stranger_conversation
     = participants_message_length (Conversation_init (ascii ''kiki'') [ascii ''A''] [ascii ''Bobby''])
   \<and> (\<exists>m\<in>set (messages stranger_conversation). author m \<notin> set ([ascii ''A''] @ [ascii ''Bobby'']))
   \<and> analyze_message_length stranger_conversation = Inl KeyError"
proof -
  have h: "participants_message_length stranger_conversation
     = participants_message_length (Conversation_init (ascii ''kiki'') [ascii ''A''] [ascii ''Bobby''])"
    by (simp add: stranger_conversation_def add_message_def)
  have e: "\<exists>m\<in>set (messages stranger_conversation). author m \<notin> set ([ascii ''A''] @ [ascii ''Bobby''])"
    by (simp add: stranger_conversation_def add_message_def Conversation_init_def ascii_def)
  from analyze_message_length_total_iff [OF h] h e stranger_dir_loads show ?thesis by blast
qed

text \<open>
  C6 as stated fails: a photo message of A leaves the sample 0 in the list of A, while A
  has no text message.
\<close>

theorem length_samples_counterexample:
  "samples_after_analysis photo_conversation (ascii ''A'') = Inr (Some [0])
   \<and> spec_text_lengths photo_conversation (ascii ''A'') = []"
  by (simp add: samples_after_analysis_def spec_text_lengths_def photo_conversation_def photo_message_def
      analyze_message_length_def add_message_def Conversation_init_def bump_def Let_def ascii_def)

text \<open>
  C6, amended.  After ingestion into a new conversation, if every author is a
  participant, the length samples of a participant are the lengths of the contents of all
  the messages of that participant, in the order of ingestion: the length of the text for
  a text message and 0 for any other message; the message count is the number of these
  messages.
\<close>

theorem length_samples_all_messages:
  assumes "load_messages tz dir (Conversation_init p fb dc) = Inr c"
    and "\<forall>m\<in>set (messages c). author m \<in> set (fb @ dc)"
    and "a \<in> set (fb @ dc)"
  shows "samples_after_analysis c a
           = Inr (Some (map (\<lambda>m. if message_type m = Text then length (content m) else 0)
                          (filter (\<lambda>m. author m = a) (messages c))))
         \<and> count_after_analysis c a
             = Inr (if filter (\<lambda>m. author m = a) (messages c) = [] then None
                    else Some (length (filter (\<lambda>m. author m = a) (messages c))))"
proof -
  from load_messages_appends [OF assms(1)] obtain new where
    c: "c = (Conversation_init p fb dc)\<lparr>messages := messages (Conversation_init p fb dc) @ new\<rparr>"
    and new: "\<forall>m\<in>set new. \<exists>ua' j. process_message tz ua' j = Inr (Some m)"
    by blast
  have msgs: "messages c = new" by (simp add: c Conversation_init_def)
  have len0: "\<And>b. participants_message_length c b = (if b \<in> set (fb @ dc) then Some [] else None)"
    using init_lengths [of p fb dc] by (simp add: c)
  have cnt0: "\<And>b. participants_message_count c b = None"
    by (simp add: c Conversation_init_def)
  have "\<not> (\<exists>m\<in>set (messages c). participants_message_length c (author m) = None)"
    using assms(2) len0 by simp
  then have "analyze_loop (messages c) c \<noteq> Inl KeyError"
    by (simp add: analyze_loop_fails_iff)
  then obtain c' where run: "analyze_loop (messages c) c = Inr c'"
    by (cases "analyze_loop (messages c) c") (auto dest: analyze_loop_error)
  have content0: "\<And>m. m \<in> set (messages c) \<Longrightarrow> message_type m \<noteq> Text \<Longrightarrow> content m = []"
    using new msgs process_message_content by blast
  have "map (\<lambda>m. length (content m)) (filter (\<lambda>m. author m = a) (messages c))
          = map (\<lambda>m. if message_type m = Text then length (content m) else 0)
              (filter (\<lambda>m. author m = a) (messages c))"
    using content0 by (auto intro!: map_cong)
  then have s: "participants_message_length c' a
          = Some (map (\<lambda>m. if message_type m = Text then length (content m) else 0)
              (filter (\<lambda>m. author m = a) (messages c)))"
    using analyze_loop_lengths [OF run, of a] len0 [of a] assms(3) by simp
  have k: "participants_message_count c' a
          = (if filter (\<lambda>m. author m = a) (messages c) = [] then None
                    else Some (length (filter (\<lambda>m. author m = a) (messages c))))"
    using analyze_loop_counts [OF run, of a] cnt0 [of a] by simp
  show ?thesis
    using run s k by (simp add: samples_after_analysis_def count_after_analysis_def analyze_message_length_def)
qed

text \<open>The photo message of A is counted and leaves the sample 0.\<close>

theorem length_samples_all_messages_witness:
  "load_messages 0 photo_dir (Conversation_init (ascii ''kiki'') [ascii ''A''] []) = Inr photo_conversation
   \<and> map author (messages photo_conversation) = [ascii ''A'']
   \<and> ascii ''A'' \<in> set ([ascii ''A''] @ [])
   \<and> samples_after_analysis photo_conversation (ascii ''A'') = Inr (Some [0])
   \<and> count_after_analysis photo_conversation (ascii ''A'') = Inr (Some 1)"
proof -
  have h: "load_messages 0 photo_dir (Conversation_init (ascii ''kiki'') [ascii ''A''] []) = Inr photo_conversation"
    by (rule photo_dir_loads)
  have m: "messages photo_conversation = [photo_message]"
    by (simp add: photo_conversation_def add_message_def Conversation_init_def)
  have a: "\<forall>m\<in>set (messages photo_conversation). author m \<in> set ([ascii ''A''] @ [])"
    by (simp add: m photo_message_def)
  have b: "ascii ''A'' \<in> set ([ascii ''A''] @ [])" by simp
  from length_samples_all_messages [OF h a b] h a b show ?thesis
    by (simp add: m photo_message_def)
qed

section \<open>The layout of the time strings\<close>

lemma split_ws_space: "is_space c \<Longrightarrow> split_ws (c # cs) = split_ws cs"
  by simp

declare str_nat.simps [simp del]

lemma str_nat_digits: "list_all is_digit (str_nat n)"
proof (induction n rule: str_nat.induct)
  case (1 n)
  show ?case
  proof (cases "n < 10")
    case True
    then show ?thesis by (subst str_nat.simps) (simp add: is_digit_def)
  next
    case False
    have "n mod 10 < 10" by simp
    then have "is_digit (48 + n mod 10)" by (simp add: is_digit_def)
    with False 1 show ?thesis by (subst str_nat.simps) simp
  qed
qed

lemma str_nat_nonempty: "str_nat n \<noteq> []"
  by (subst str_nat.simps) simp

lemma str_nat_length1: "n < 10 \<Longrightarrow> length (str_nat n) = 1"
  by (subst str_nat.simps) simp

lemma str_nat_length2: "10 \<le> n \<Longrightarrow> n < 100 \<Longrightarrow> length (str_nat n) = 2"
  by (subst str_nat.simps) (simp add: str_nat_length1)

lemma str_nat_length3: "100 \<le> n \<Longrightarrow> n < 1000 \<Longrightarrow> length (str_nat n) = 3"
  by (subst str_nat.simps) (simp add: str_nat_length2)

lemma str_nat_length4: "1000 \<le> n \<Longrightarrow> n < 10000 \<Longrightarrow> length (str_nat n) = 4"
  by (subst str_nat.simps) (simp add: str_nat_length3)

lemma str_nat_length_le2: "n < 100 \<Longrightarrow> length (str_nat n) \<le> 2"
  using str_nat_length1 [of n] str_nat_length2 [of n] by (cases "n < 10") auto

lemma str_nat_length_le4: "n < 10000 \<Longrightarrow> length (str_nat n) \<le> 4"
  using str_nat_length1 [of n] str_nat_length2 [of n] str_nat_length3 [of n]
    str_nat_length4 [of n]
  by (cases "n < 10"; cases "n < 100"; cases "n < 1000") auto

lemma rjust_digits: "list_all is_digit (rjust w 48 (str_nat n))"
  using str_nat_digits [of n] by (auto simp: rjust_def list_all_iff is_digit_def)

lemma rjust_length: "length s \<le> w \<Longrightarrow> length (rjust w fill s) = w"
  by (simp add: rjust_def)

lemma digits_token: "s \<noteq> [] \<Longrightarrow> list_all is_digit s \<Longrightarrow> is_token s"
  by (auto simp: is_token_def list_all_iff is_digit_def is_space_def)

lemma digits_no_sep: "list_all is_digit s \<Longrightarrow> 58 \<notin> set s \<and> 32 \<notin> set s"
  by (auto simp: list_all_iff is_digit_def)

lemma day_names_tokens:
  "w \<in> set DayNames \<Longrightarrow> is_token w \<and> 32 \<notin> set w \<and> 58 \<notin> set w"
  by (auto simp: DayNames_def ascii_def is_token_def is_space_def)

lemma month_names_tokens:
  "w \<in> set MonthNames \<Longrightarrow> is_token w \<and> 32 \<notin> set w \<and> 58 \<notin> set w"
  by (auto simp: MonthNames_def ascii_def is_token_def is_space_def)

lemma is_token_append: "is_token a \<Longrightarrow> is_token b \<Longrightarrow> is_token (a @ b)"
  by (simp add: is_token_def)

lemma colon_token: "is_token [58]"
  by (simp add: is_token_def is_space_def)

lemma ctime_layout:
  assumes "valid_datetime dt"
  shows "split_ws (ctime dt)
           = [DayNames ! weekday dt, MonthNames ! (month dt - 1), str_nat (day dt), hms dt,
              rjust 4 48 (str_nat (year dt))]"
    and "weekday_key (ctime dt) = Inr (DayNames ! weekday dt)"
    and "hour_key (ctime dt) = Inr (rjust 2 48 (str_nat (hour dt)))"
    and "day_key (ctime dt)
           = Inr (MonthNames ! (month dt - 1) @ [32] @ str_nat (day dt) @ [32]
                  @ rjust 4 48 (str_nat (year dt)))"
    and "length (hms dt) = 8" and "length (rjust 4 48 (str_nat (year dt))) = 4"
proof -
  define W where "W = DayNames ! weekday dt"
  define M where "M = MonthNames ! (month dt - 1)"
  define D where "D = str_nat (day dt)"
  define P where "P = replicate (2 - length D) (32::nat)"
  define HH where "HH = rjust 2 48 (str_nat (hour dt))"
  define MI where "MI = rjust 2 48 (str_nat (minute dt))"
  define SS where "SS = rjust 2 48 (str_nat (second dt))"
  define H where "H = HH @ 58 # MI @ 58 # SS"
  define Y where "Y = rjust 4 48 (str_nat (year dt))"
  have sp: "is_space 32" by (simp add: is_space_def)
  have "weekday dt < 7" by (simp add: weekday_def)
  moreover have "length DayNames = 7" by (simp add: DayNames_def)
  ultimately have "W \<in> set DayNames" unfolding W_def by (intro nth_mem) simp
  then have W: "is_token W" "32 \<notin> set W" "58 \<notin> set W"
    using day_names_tokens by blast+
  have "1 \<le> month dt \<and> month dt \<le> 12" using assms by (simp add: valid_datetime_def)
  then have "month dt - 1 < 12" by arith
  moreover have "length MonthNames = 12" by (simp add: MonthNames_def)
  ultimately have "M \<in> set MonthNames" unfolding M_def by (intro nth_mem) simp
  then have M: "is_token M" "32 \<notin> set M" "58 \<notin> set M"
    using month_names_tokens by blast+
  have Ddig: "list_all is_digit D" by (simp add: D_def str_nat_digits)
  have Dne: "D \<noteq> []" by (simp add: D_def str_nat_nonempty)
  have D: "is_token D" "32 \<notin> set D" "58 \<notin> set D"
    using Ddig Dne digits_token digits_no_sep by blast+
  have "day dt < 100" using assms by (simp add: valid_datetime_def days_in_month_def split: if_splits)
  then have "length D \<le> 2" by (simp add: D_def str_nat_length_le2)
  moreover have "1 \<le> length D" using Dne by (cases D) auto
  ultimately have "length D = 1 \<or> length D = 2" by arith
  then have P: "P = [32] \<or> P = []" by (auto simp: P_def)
  have h2: "hour dt < 100" "minute dt < 100" "second dt < 100"
    using assms by (simp_all add: valid_datetime_def)
  have len2: "length HH = 2" "length MI = 2" "length SS = 2"
    using h2 by (simp_all add: HH_def MI_def SS_def rjust_length str_nat_length_le2)
  have dig2: "list_all is_digit HH" "list_all is_digit MI" "list_all is_digit SS"
    by (simp_all add: HH_def MI_def SS_def rjust_digits)
  have ne2: "HH \<noteq> []" "MI \<noteq> []" "SS \<noteq> []" using len2 by auto
  have HH: "is_token HH" "32 \<notin> set HH" "58 \<notin> set HH"
    using dig2 ne2 digits_token digits_no_sep by blast+
  have MI: "is_token MI" "32 \<notin> set MI" using dig2 ne2 digits_token digits_no_sep by blast+
  have SS: "is_token SS" "32 \<notin> set SS" using dig2 ne2 digits_token digits_no_sep by blast+
  have H: "is_token H"
    unfolding H_def using HH(1) MI(1) SS(1) by (simp add: is_token_def is_space_def)
  have "year dt < 10000" using assms by (simp add: valid_datetime_def)
  then have Ylen: "length Y = 4" by (simp add: Y_def rjust_length str_nat_length_le4)
  have Ydig: "list_all is_digit Y" by (simp add: Y_def rjust_digits)
  have "Y \<noteq> []" using Ylen by auto
  then have Y: "is_token Y" using Ydig by (rule digits_token)
  have hmsH: "hms dt = H" by (simp add: hms_def H_def HH_def MI_def SS_def)
  have ct: "ctime dt = W @ 32 # M @ 32 # P @ D @ 32 # H @ 32 # Y"
    by (simp add: ctime_def hmsH W_def M_def P_def D_def Y_def rjust_def)
  have tailD: "split_ws (D @ 32 # H @ 32 # Y) = [D, H, Y]"
    by (simp add: split_ws_token_append [OF D(1) sp] split_ws_token_append [OF H sp]
        split_ws_token_single [OF Y] del: split_ws.simps)
  have tailP: "split_ws (P @ D @ 32 # H @ 32 # Y) = [D, H, Y]"
    using P tailD sp by (auto simp del: split_ws.simps simp add: split_ws_space)
  have all: "split_ws (ctime dt) = [W, M, D, H, Y]"
    by (simp add: ct split_ws_token_append [OF W(1) sp] split_ws_token_append [OF M(1) sp]
        tailP del: split_ws.simps)
  show "split_ws (ctime dt)
           = [DayNames ! weekday dt, MonthNames ! (month dt - 1), str_nat (day dt), hms dt,
              rjust 4 48 (str_nat (year dt))]"
    using all by (simp add: W_def M_def D_def hmsH Y_def)
  have "split_sep 32 (ctime dt) = W # split_sep 32 (M @ 32 # P @ D @ 32 # H @ 32 # Y)"
    by (simp only: ct split_sep_free_append [OF W(2)])
  then have "weekday_key (ctime dt) = Inr W"
    by (simp add: weekday_key_def py_index_first)
  then show "weekday_key (ctime dt) = Inr (DayNames ! weekday dt)"
    by (simp add: W_def)
  define pre where "pre = W @ 32 # M @ 32 # P @ D @ 32 # HH"
  have Pfree: "58 \<notin> set P" using P by auto
  have prefree: "58 \<notin> set pre"
    using W(3) M(3) D(3) HH(3) Pfree by (simp add: pre_def)
  have ct2: "ctime dt = pre @ 58 # MI @ 58 # SS @ 32 # Y"
    by (simp add: ct pre_def H_def)
  have colon: "py_index (split_sep 58 (ctime dt)) 0 = Inr pre"
    by (simp only: ct2 split_sep_free_append [OF prefree] py_index_first)
  have "pre = (W @ 32 # M @ 32 # P @ D) @ 32 # HH" by (simp add: pre_def)
  then have "split_sep 32 pre = split_sep 32 (W @ 32 # M @ 32 # P @ D) @ [HH]"
    by (simp only: split_sep_append split_sep_free [OF HH(2)])
  then have "py_index (split_sep 32 pre) (- 1) = Inr HH"
    by (simp only: py_index_last)
  with colon have "hour_key (ctime dt) = Inr HH"
    by (simp add: hour_key_def ebind_def)
  then show "hour_key (ctime dt) = Inr (rjust 2 48 (str_nat (hour dt)))"
    by (simp add: HH_def)
  have tailD2: "split_ws (D @ 32 # HH) = [D, HH]"
    by (simp add: split_ws_token_append [OF D(1) sp] split_ws_token_single [OF HH(1)]
        del: split_ws.simps)
  have tailP2: "split_ws (P @ D @ 32 # HH) = [D, HH]"
    using P tailD2 sp by (auto simp del: split_ws.simps simp add: split_ws_space)
  have pre_ws: "split_ws pre = [W, M, D, HH]"
    by (simp add: pre_def split_ws_token_append [OF W(1) sp] split_ws_token_append [OF M(1) sp]
        tailP2 del: split_ws.simps)
  have i1: "py_index [W, M, D, H, Y] 1 = Inr M"
    and i2: "py_index [W, M, D, HH] (- 2) = Inr D"
    and i3: "py_index [W, M, D, H, Y] (- 1) = Inr Y"
    by (simp_all add: py_index_def)
  have "day_key (ctime dt) = Inr (M @ [32] @ D @ [32] @ Y)"
    unfolding day_key_def all colon by (simp add: ebind_def pre_ws i1 i2 i3)
  then show "day_key (ctime dt)
           = Inr (MonthNames ! (month dt - 1) @ [32] @ str_nat (day dt) @ [32]
                  @ rjust 4 48 (str_nat (year dt)))"
    by (simp add: M_def D_def Y_def)
  show "length (hms dt) = 8" by (simp add: hmsH H_def len2)
  show "length (rjust 4 48 (str_nat (year dt))) = 4" using Ylen by (simp add: Y_def)
qed

text \<open>Every time string of the ingestion is the \<open>ctime\<close> of a valid datetime.\<close>

lemma datetime_new_valid:
  "datetime_new y m d hh mm ss us z = Inr dt \<Longrightarrow> valid_datetime dt"
  by (auto simp: datetime_new_def Let_def split: if_splits)

lemma datetime_of_micros_valid:
  "datetime_of_micros err us z = Inr dt \<Longrightarrow> valid_datetime dt"
  by (auto simp: datetime_of_micros_def Let_def split: if_splits prod.splits
      dest: datetime_new_valid)

lemma fromisoformat_valid: "fromisoformat s = Inr dt \<Longrightarrow> valid_datetime dt"
  by (auto simp: fromisoformat_def split: option.splits prod.splits if_splits
      dest: datetime_new_valid)

lemma astimezone_valid:
  assumes "valid_datetime dt" and "astimezone tz dt = Inr local"
  shows "valid_datetime local"
proof (cases "tzinfo dt")
  case None
  with assms(2) have "local = dt\<lparr>tzinfo := Some (tz * 1000000)\<rparr>"
    by (auto simp: astimezone_def ebind_def Let_def split: if_splits sum.splits)
  with assms(1) show ?thesis by (simp add: valid_datetime_def)
next
  case (Some off)
  with assms(2) show ?thesis
    by (auto simp: astimezone_def ebind_def split: sum.splits dest: datetime_of_micros_valid)
qed

lemma facebook_message_date_ctime:
  "facebook_message_date tz v = Inr t \<Longrightarrow> \<exists>dt. valid_datetime dt \<and> t = ctime dt"
  by (auto simp: facebook_message_date_def fromtimestamp_def ebind_def Let_def
      split: json.splits sum.splits if_splits dest: datetime_of_micros_valid)

lemma discord_message_date_ctime:
  "discord_message_date tz v = Inr t \<Longrightarrow> \<exists>dt. valid_datetime dt \<and> t = ctime dt"
  by (auto simp: discord_message_date_def ebind_def
      split: json.splits sum.splits dest: fromisoformat_valid astimezone_valid)

lemma message_date_author_ctime:
  "message_date_author tz ua message = Inr (t, a, p) \<Longrightarrow> \<exists>dt. valid_datetime dt \<and> t = ctime dt"
  by (auto simp: message_date_author_def ebind_def
      split: option.splits app.splits sum.splits json.splits
      dest: facebook_message_date_ctime discord_message_date_ctime)

lemma process_message_time:
  assumes "process_message tz ua j = Inr (Some m)"
  shows "\<exists>dt. valid_datetime dt \<and> time m = ctime dt"
proof -
  from assms obtain message ty c t a p where
    "message_date_author tz ua message = Inr (t, a, p)" and "time m = t"
    by (auto simp: process_message_def ebind_def
        split: json.splits sum.splits option.splits prod.splits)
  then show ?thesis using message_date_author_ctime by blast
qed

text \<open>
  C4.  Every Message that ingestion appends, from either platform, has a time string that
  is the \<open>ctime\<close> of a valid datetime, and whose whitespace tokens are, in this order,
  the weekday abbreviation, the month abbreviation, the day of the month without leading
  zero, the time as HH:MM:SS (eight characters) and the year in four digits; the keys the
  aggregator takes from it are that weekday, the two digits of the hour, and month, day and
  year joined by single spaces.
\<close>

theorem ingested_time_layout:
  assumes "load_messages tz dir c = Inr c'"
    and "m \<in> set (drop (length (messages c)) (messages c'))"
  shows "\<exists>dt. valid_datetime dt \<and> time m = ctime dt
           \<and> split_ws (time m)
               = [DayNames ! weekday dt, MonthNames ! (month dt - 1), str_nat (day dt), hms dt,
                  rjust 4 48 (str_nat (year dt))]
           \<and> length (hms dt) = 8 \<and> length (rjust 4 48 (str_nat (year dt))) = 4
           \<and> weekday_key (time m) = Inr (DayNames ! weekday dt)
           \<and> hour_key (time m) = Inr (rjust 2 48 (str_nat (hour dt)))
           \<and> day_key (time m)
               = Inr (MonthNames ! (month dt - 1) @ [32] @ str_nat (day dt) @ [32]
                      @ rjust 4 48 (str_nat (year dt)))"
proof -
  from load_messages_appends [OF assms(1)] obtain new where
    c': "c' = c\<lparr>messages := messages c @ new\<rparr>"
    and new: "\<forall>x\<in>set new. \<exists>ua' j. process_message tz ua' j = Inr (Some x)"
    by blast
  have "drop (length (messages c)) (messages c') = new" by (simp add: c')
  with assms(2) new obtain ua' j where "process_message tz ua' j = Inr (Some m)"
    by auto
  from process_message_time [OF this] obtain dt where
    dt: "valid_datetime dt" and t: "time m = ctime dt"
    by blast
  note layout = ctime_layout [OF dt, folded t]
  show ?thesis
    by (rule exI [of _ dt]) (intro conjI dt t layout)
qed

text \<open>
  The photo message of \<open>photo_dir\<close>, sent on a day of one digit: its tokens and its
  three keys.
\<close>

theorem ingested_time_layout_witness:
  "load_messages 0 photo_dir (Conversation_init (ascii ''kiki'') [ascii ''A''] [])
     = Inr photo_conversation
   \<and> drop (length (messages (Conversation_init (ascii ''kiki'') [ascii ''A''] [])))
        (messages photo_conversation) = [photo_message]
   \<and> time photo_message = ascii ''Thu Jan  1 00:00:00 1970''
   \<and> (\<exists>dt. valid_datetime dt \<and> time photo_message = ctime dt
           \<and> split_ws (time photo_message)
               = [DayNames ! weekday dt, MonthNames ! (month dt - 1), str_nat (day dt), hms dt,
                  rjust 4 48 (str_nat (year dt))]
           \<and> weekday_key (time photo_message) = Inr (DayNames ! weekday dt)
           \<and> hour_key (time photo_message) = Inr (rjust 2 48 (str_nat (hour dt)))
           \<and> day_key (time photo_message)
               = Inr (MonthNames ! (month dt - 1) @ [32] @ str_nat (day dt) @ [32]
                      @ rjust 4 48 (str_nat (year dt))))
   \<and> split_ws (time photo_message)
       = [ascii ''Thu'', ascii ''Jan'', ascii ''1'', ascii ''00:00:00'', ascii ''1970'']
   \<and> weekday_key (time photo_message) = Inr (ascii ''Thu'')
   \<and> hour_key (time photo_message) = Inr (ascii ''00'')
   \<and> day_key (time photo_message) = Inr (ascii ''Jan 1 1970'')"
proof -
  have h: "load_messages 0 photo_dir (Conversation_init (ascii ''kiki'') [ascii ''A''] [])
             = Inr photo_conversation"
    by (rule photo_dir_loads)
  have d: "drop (length (messages (Conversation_init (ascii ''kiki'') [ascii ''A''] [])))
             (messages photo_conversation) = [photo_message]"
    by (simp add: photo_conversation_def photo_message_def add_message_def Conversation_init_def)
  have m: "photo_message
             \<in> set (drop (length (messages (Conversation_init (ascii ''kiki'') [ascii ''A''] [])))
                  (messages photo_conversation))"
    by (simp add: d)
  have t: "time photo_message = ascii ''Thu Jan  1 00:00:00 1970''"
    by (simp add: photo_message_def)
  have k: "split_ws (time photo_message)
       = [ascii ''Thu'', ascii ''Jan'', ascii ''1'', ascii ''00:00:00'', ascii ''1970'']"
    "weekday_key (time photo_message) = Inr (ascii ''Thu'')"
    "hour_key (time photo_message) = Inr (ascii ''00'')"
    "day_key (time photo_message) = Inr (ascii ''Jan 1 1970'')"
    by (simp_all add: t ascii_def is_space_def weekday_key_def hour_key_def day_key_def
        py_index_def ebind_def)
  from ingested_time_layout [OF h m] h d t k show ?thesis by blast
qed

end
